theory Spec2Isabelle
  imports Complex_Main "HOL-Library.Sublist"
begin

section \<open>The pitch meter of \<^verbatim>\<open>src/App.tsx\<close>\<close>

text \<open>
  The component \<^verbatim>\<open>App\<close> keeps its data in React state (\<^verbatim>\<open>useState\<close>) and in
  ref cells (\<^verbatim>\<open>useRef\<close>), and it runs two loops on \<^verbatim>\<open>requestAnimationFrame\<close>:
  \<^verbatim>\<open>updatePitch\<close> and \<^verbatim>\<open>updateCalibration\<close>. The model is a record of the state and of
  the pending animation-frame callbacks, one function per function of the source, and
  one function that runs an animation frame.

  Numbers. A JavaScript number is modelled as a \<^typ>\<open>real\<close>: the arithmetic is exact,
  the rounding of IEEE doubles and of \<^verbatim>\<open>Float32Array\<close> cells is not modelled, and
  \<^verbatim>\<open>NaN\<close> and the infinities have no value in the model. Where the source can only
  produce one of these on an input (a frequency that is not positive, an empty array)
  this is said at the definition. Integers that the source computes with \<^verbatim>\<open>Math.round\<close>
  and \<^verbatim>\<open>Math.floor\<close> are \<^typ>\<open>int\<close>; counters and lengths are \<^typ>\<open>nat\<close>.
\<close>

subsection \<open>JavaScript primitives used by the source\<close>

text \<open>\<^verbatim>\<open>Math.round(x)\<close>: the nearest integer, a tie going up.\<close>

definition Math_round :: "real \<Rightarrow> int" where
  "Math_round x = \<lfloor>x + 1 / 2\<rfloor>"

text \<open>
  \<^verbatim>\<open>a % b\<close> on integers: the remainder of the division that truncates towards zero,
  so the result has the sign of \<open>a\<close>. (A result \<^verbatim>\<open>-0\<close> indexes an array as \<open>0\<close> does.)
\<close>

definition js_rem :: "int \<Rightarrow> int \<Rightarrow> int" where
  "js_rem a b = (if 0 \<le> a then a mod \<bar>b\<bar> else - ((- a) mod \<bar>b\<bar>))"

text \<open>The decimal form of an integer, as a template literal prints it.\<close>

fun show_nat :: "nat \<Rightarrow> string" where
  "show_nat n =
     (if n < 10 then [''0123456789'' ! n]
      else show_nat (n div 10) @ [''0123456789'' ! (n mod 10)])"

declare show_nat.simps [simp del]

definition show_int :: "int \<Rightarrow> string" where
  "show_int k = (if k < 0 then CHR ''-'' # show_nat (nat (- k)) else show_nat (nat k))"

text \<open>\<^verbatim>\<open>xs.slice(start, end)\<close> for \<open>0 \<le> start\<close> and \<open>0 \<le> end\<close>: both are clipped to the length.\<close>

definition slice :: "'a list \<Rightarrow> nat \<Rightarrow> nat \<Rightarrow> 'a list" where
  "slice xs start end = take (end - start) (drop start xs)"

text \<open>\<^verbatim>\<open>xs.slice(-n)\<close>: the last \<open>n\<close> elements, the whole array when it has fewer.\<close>

definition slice_last :: "nat \<Rightarrow> 'a list \<Rightarrow> 'a list" where
  "slice_last n xs = drop (length xs - n) xs"

text \<open>
  \<^verbatim>\<open>Math.max(...xs)\<close>. On an empty array JavaScript gives \<^verbatim>\<open>-Infinity\<close>, which has
  no value here: the function is given on non-empty arrays only. The array it is applied
  to has \<^verbatim>\<open>frequencyBinCount\<close> cells, which the Web Audio API keeps at 16 or more.
\<close>

fun Math_max :: "real list \<Rightarrow> real" where
  "Math_max (x # xs) = fold max xs x"

subsection \<open>\<^verbatim>\<open>getNote\<close> (lines 9 to 16)\<close>

definition NOTES :: "string list" where
  "NOTES = [''C'', ''C#'', ''D'', ''D#'', ''E'', ''F'', ''F#'', ''G'', ''G#'', ''A'', ''A#'', ''B'']"

text \<open>\<^verbatim>\<open>`${NOTES[k]}`\<close>: reading outside the array gives \<^verbatim>\<open>undefined\<close>, printed as such.\<close>

definition index_NOTES :: "int \<Rightarrow> string" where
  "index_NOTES k =
     (if 0 \<le> k \<and> k < int (length NOTES) then NOTES ! nat k else ''undefined'')"

definition noteNum :: "real \<Rightarrow> real" where
  "noteNum frequency = 12 * (log 2 (frequency / 440) + 4)"

definition noteIndex :: "real \<Rightarrow> int" where
  "noteIndex frequency = js_rem (Math_round (noteNum frequency)) 12"

definition octave :: "real \<Rightarrow> int" where
  "octave frequency = \<lfloor>noteNum frequency / 12\<rfloor>"

text \<open>
  For \<open>frequency = 0\<close> the source computes \<^verbatim>\<open>Math.log2(0) = -Infinity\<close> and for a negative
  one \<^verbatim>\<open>NaN\<close>; the index is then \<^verbatim>\<open>NaN\<close> and the two strings below are what the
  template literal prints.
\<close>

definition getNote :: "real \<Rightarrow> string" where
  "getNote frequency =
     (if 0 < frequency then index_NOTES (noteIndex frequency) @ show_int (octave frequency)
      else if frequency = 0 then ''undefined-Infinity''
      else ''undefinedNaN'')"

subsection \<open>The state of the component\<close>

text \<open>
  A pending animation-frame callback is a closure. \<^verbatim>\<open>updatePitch\<close> closes over the
  \<^verbatim>\<open>cancelNoise\<close> and \<^verbatim>\<open>smoothness\<close> of the render in which \<^verbatim>\<open>startListening\<close> ran, and
  it reschedules itself, so these two values stay with the loop. \<^verbatim>\<open>updateCalibration\<close>
  closes over its counter \<^verbatim>\<open>calibrationFrames\<close> and over \<^verbatim>\<open>maxCalibrationFrames\<close>.
\<close>

datatype callback =
  UpdatePitch bool nat
| UpdateCalibration nat nat

text \<open>
  The fields are the \<^verbatim>\<open>useState\<close> cells and the \<^verbatim>\<open>useRef\<close> cells of the source under
  their names (a ref cell that holds \<^verbatim>\<open>null\<close> is \<open>None\<close>), then the callbacks waiting
  for the next animation frame with their handles, and the next handle. \<^verbatim>\<open>maxRange\<close>
  (the scale of the chart) and the three audio nodes are left out: no function below
  reads them.
\<close>

record app_state =
  isListening :: bool
  pitchData :: "real list"
  currentNote :: string
  cancelNoise :: bool
  isCalibrating :: bool
  calibrationTime :: nat
  smoothness :: nat
  rafIdRef :: "nat option"
  noiseFloorRef :: real
  noiseProfileRef :: "real list option"
  pending :: "(nat \<times> callback) list"
  nextHandle :: nat

definition initial_state :: app_state where
  "initial_state =
     \<lparr>isListening = False, pitchData = [], currentNote = [], cancelNoise = False,
      isCalibrating = False, calibrationTime = 5, smoothness = 0, rafIdRef = None,
      noiseFloorRef = 0, noiseProfileRef = None, pending = [], nextHandle = 1\<rparr>"

text \<open>
  What the audio nodes deliver when a callback runs: \<open>getFloatFrequencyData\<close> is the
  fresh \<^verbatim>\<open>Float32Array(frequencyBinCount)\<close> after the call of that name has filled it,
  \<open>getFloatTimeDomainData\<close> is \<^verbatim>\<open>input\<close> after the call of that name has filled it, and
  \<open>findPitch\<close> is the first component of \<^verbatim>\<open>detector.findPitch(input, sampleRate)\<close>,
  with \<open>None\<close> for \<^verbatim>\<open>null\<close> and for \<^verbatim>\<open>NaN\<close>.
\<close>

record reading =
  getFloatFrequencyData :: "real list"
  getFloatTimeDomainData :: "real list"
  findPitch :: "real list \<Rightarrow> real option"

definition requestAnimationFrame :: "callback \<Rightarrow> app_state \<Rightarrow> app_state" where
  "requestAnimationFrame cb st =
     st\<lparr>pending := pending st @ [(nextHandle st, cb)], nextHandle := nextHandle st + 1\<rparr>"

definition cancelAnimationFrame :: "nat \<Rightarrow> app_state \<Rightarrow> app_state" where
  "cancelAnimationFrame h st = st\<lparr>pending := filter (\<lambda>(h', cb). h' \<noteq> h) (pending st)\<rparr>"

subsection \<open>\<^verbatim>\<open>calibrateNoise\<close> and \<^verbatim>\<open>updateCalibration\<close> (lines 45 to 74)\<close>

text \<open>
  \<^verbatim>\<open>profile.set(frequencyData)\<close> copies the data over the first cells of the profile.
  (With more data than cells it throws; both arrays are made with
  \<^verbatim>\<open>frequencyBinCount\<close> cells, and the call is made right after the profile is.)
\<close>

definition set_array :: "real list \<Rightarrow> real list \<Rightarrow> real list" where
  "set_array profile frequencyData = frequencyData @ drop (length frequencyData) profile"

text \<open>
  The loop of lines 58 to 60. A typed array has a fixed length: a cell of the profile
  beyond the data is not visited, and a write beyond the profile does nothing.
\<close>

definition max_into :: "real list \<Rightarrow> real list \<Rightarrow> real list" where
  "max_into profile frequencyData =
     map2 max profile frequencyData @ drop (length frequencyData) profile"

text \<open>
  One call of \<^verbatim>\<open>updateCalibration\<close>, with the counter and the bound of its closure.
  The profile is never \<^verbatim>\<open>null\<close> when it runs (\<^verbatim>\<open>calibrateNoise\<close> has set it); on
  \<^verbatim>\<open>null\<close> the call would throw at once and change nothing.
\<close>

definition updateCalibration :: "nat \<Rightarrow> nat \<Rightarrow> reading \<Rightarrow> app_state \<Rightarrow> app_state" where
  "updateCalibration calibrationFrames maxCalibrationFrames r st =
     (case noiseProfileRef st of
        None \<Rightarrow> st
      | Some profile \<Rightarrow>
          let profile' =
                (if calibrationFrames = 0 then set_array profile (getFloatFrequencyData r)
                 else max_into profile (getFloatFrequencyData r));
              st' = st\<lparr>noiseProfileRef := Some profile'\<rparr>
          in if calibrationFrames + 1 < maxCalibrationFrames
             then requestAnimationFrame
                    (UpdateCalibration (calibrationFrames + 1) maxCalibrationFrames) st'
             else st'\<lparr>isCalibrating := False, noiseFloorRef := Math_max profile'\<rparr>)"

definition calibrateNoise :: "reading \<Rightarrow> app_state \<Rightarrow> app_state" where
  "calibrateNoise r st =
     updateCalibration 0 (calibrationTime st * 60) r
       (st\<lparr>isCalibrating := True,
           noiseProfileRef := Some (replicate (length (getFloatFrequencyData r)) 0)\<rparr>)"

subsection \<open>\<^verbatim>\<open>updatePitch\<close> (lines 91 to 122)\<close>

text \<open>
  Lines 94 to 98, on a profile that is there. The profile has at least one cell
  (with none, \<^verbatim>\<open>i % 0\<close> is \<^verbatim>\<open>NaN\<close> and so is every sample).
\<close>

definition subtractProfile :: "real list \<Rightarrow> real list \<Rightarrow> real list" where
  "subtractProfile profile input =
     map (\<lambda>i. max 0 (input ! i - profile ! (i mod length profile))) [0..<length input]"

text \<open>The array \<^verbatim>\<open>input\<close> as \<^verbatim>\<open>detector.findPitch\<close> receives it on line 100.\<close>

definition gatedInput :: "bool \<Rightarrow> real list option \<Rightarrow> real list \<Rightarrow> real list" where
  "gatedInput cancelNoise' profileRef input =
     (case profileRef of
        Some profile \<Rightarrow> if cancelNoise' then subtractProfile profile input else input
      | None \<Rightarrow> input)"

text \<open>Lines 106 to 113: the loop that builds \<^verbatim>\<open>smoothedData\<close> from \<^verbatim>\<open>newData\<close>.\<close>

definition smoothedData :: "nat \<Rightarrow> real list \<Rightarrow> real list" where
  "smoothedData smoothness' newData =
     map (\<lambda>i. let start = nat (max 0 (int i - int smoothness'));
                  end = min (length newData) (i + smoothness' + 1);
                  sl = slice newData start end
              in foldl (+) 0 sl / real (length sl))
       [0..<length newData]"

text \<open>Lines 103 to 117: the function given to \<^verbatim>\<open>setPitchData\<close>.\<close>

definition pitchDataUpdate :: "nat \<Rightarrow> real \<Rightarrow> real list \<Rightarrow> real list" where
  "pitchDataUpdate smoothness' pitch prevData =
     (let newData = prevData @ [pitch]
      in if 0 < smoothness' then slice_last 100 (smoothedData smoothness' newData)
         else slice_last 100 newData)"

text \<open>
  The smoothing on its own: what lines 105 to 116 do to \<^verbatim>\<open>newData\<close> before
  \<^verbatim>\<open>slice(-100)\<close>.
\<close>

definition smooth :: "nat \<Rightarrow> real list \<Rightarrow> real list" where
  "smooth smoothness' newData =
     (if 0 < smoothness' then smoothedData smoothness' newData else newData)"

definition updatePitch :: "bool \<Rightarrow> nat \<Rightarrow> reading \<Rightarrow> app_state \<Rightarrow> app_state" where
  "updatePitch cancelNoise' smoothness' r st =
     (let input = gatedInput cancelNoise' (noiseProfileRef st) (getFloatTimeDomainData r);
          pitch = findPitch r input;
          st' = (case pitch of
                   None \<Rightarrow> st
                 | Some p \<Rightarrow>
                     if \<not> cancelNoise' \<or> noiseFloorRef st < p
                     then st\<lparr>pitchData := pitchDataUpdate smoothness' p (pitchData st),
                             currentNote := getNote p\<rparr>
                     else st)
      in (requestAnimationFrame (UpdatePitch cancelNoise' smoothness') st')
           \<lparr>rafIdRef := Some (nextHandle st')\<rparr>)"

subsection \<open>The handlers (lines 76 to 157)\<close>

text \<open>
  \<open>granted\<close> says whether \<^verbatim>\<open>getUserMedia\<close> resolves; when it rejects, the handler
  logs the error and nothing else happens.
\<close>

definition startListening :: "bool \<Rightarrow> reading \<Rightarrow> app_state \<Rightarrow> app_state" where
  "startListening granted r st =
     (if \<not> granted then st
      else let st' = (if cancelNoise st then calibrateNoise r st else st)
           in (updatePitch (cancelNoise st) (smoothness st) r st')\<lparr>isListening := True\<rparr>)"

definition stopListening :: "app_state \<Rightarrow> app_state" where
  "stopListening st =
     (let st' = (case rafIdRef st of Some h \<Rightarrow> cancelAnimationFrame h st | None \<Rightarrow> st)
      in st'\<lparr>isListening := False, pitchData := [], currentNote := []\<rparr>)"

definition handleCancelNoiseChange :: "bool \<Rightarrow> reading \<Rightarrow> app_state \<Rightarrow> app_state" where
  "handleCancelNoiseChange checked r st =
     (let st' = st\<lparr>cancelNoise := checked\<rparr>
      in if checked \<and> isListening st then calibrateNoise r st' else st')"

definition handleCalibrate :: "reading \<Rightarrow> app_state \<Rightarrow> app_state" where
  "handleCalibrate r st = (if isListening st then calibrateNoise r st else st)"

subsection \<open>Animation frames and user events\<close>

definition runCallback :: "reading \<Rightarrow> app_state \<Rightarrow> nat \<times> callback \<Rightarrow> app_state" where
  "runCallback r st hcb =
     (case snd hcb of
        UpdatePitch cancelNoise' smoothness' \<Rightarrow> updatePitch cancelNoise' smoothness' r st
      | UpdateCalibration calibrationFrames maxCalibrationFrames \<Rightarrow>
          updateCalibration calibrationFrames maxCalibrationFrames r st)"

text \<open>
  An animation frame runs the callbacks that were pending when it began, in the order of
  their registration; what they register waits for the next frame.
\<close>

definition animationFrame :: "reading \<Rightarrow> app_state \<Rightarrow> app_state" where
  "animationFrame r st = foldl (runCallback r) (st\<lparr>pending := []\<rparr>) (pending st)"

text \<open>
  The events of the page. The listen button is disabled while \<^verbatim>\<open>isCalibrating\<close>, the
  calibrate button while not listening or calibrating (lines 192 and 224).
\<close>

datatype event =
  ClickListen bool reading
| ChangeCancelNoise bool reading
| ClickCalibrate reading
| ChangeSmoothness nat
| AnimationFrame reading

fun step :: "app_state \<Rightarrow> event \<Rightarrow> app_state" where
  "step st (ClickListen granted r) =
     (if isCalibrating st then st
      else if isListening st then stopListening st
      else startListening granted r st)"
| "step st (ChangeCancelNoise checked r) = handleCancelNoiseChange checked r st"
| "step st (ClickCalibrate r) =
     (if \<not> isListening st \<or> isCalibrating st then st else handleCalibrate r st)"
| "step st (ChangeSmoothness n) = st\<lparr>smoothness := n\<rparr>"
| "step st (AnimationFrame r) = animationFrame r st"

definition run :: "event list \<Rightarrow> app_state" where
  "run evs = foldl step initial_state evs"

subsection \<open>What a calibration loop reads and writes\<close>

fun isCalibration :: "callback \<Rightarrow> bool" where
  "isCalibration (UpdateCalibration calibrationFrames maxCalibrationFrames) = True"
| "isCalibration (UpdatePitch cancelNoise' smoothness') = False"

text \<open>The calibration loops that wait for the next animation frame, oldest first.\<close>

definition calibrationsPending :: "app_state \<Rightarrow> callback list" where
  "calibrationsPending st = filter isCalibration (map snd (pending st))"

text \<open>
  The part of the state that \<^verbatim>\<open>calibrateNoise\<close> and \<^verbatim>\<open>updateCalibration\<close> read or
  write: the profile, the floor, \<^verbatim>\<open>isCalibrating\<close>, \<^verbatim>\<open>calibrationTime\<close> and the
  pending calibration loops.
\<close>

definition calibrationView ::
  "app_state \<Rightarrow> real list option \<times> real \<times> bool \<times> nat \<times> callback list" where
  "calibrationView st =
     (noiseProfileRef st, noiseFloorRef st, isCalibrating st, calibrationTime st,
      calibrationsPending st)"

text \<open>
  The pitch loops that wait for the next animation frame, and the part of the state a loop
  is compared with: the two settings of the session and the pending pitch loops, each
  with the two values of its closure.
\<close>

definition pitchLoops :: "app_state \<Rightarrow> callback list" where
  "pitchLoops st = filter (\<lambda>cb. \<not> isCalibration cb) (map snd (pending st))"

definition loopView :: "app_state \<Rightarrow> bool \<times> nat \<times> callback list" where
  "loopView st = (cancelNoise st, smoothness st, pitchLoops st)"

text \<open>The animation frames of the readings \<open>rs\<close>, one after the other.\<close>

definition animationFrames :: "reading list \<Rightarrow> app_state \<Rightarrow> app_state" where
  "animationFrames rs st = foldl (\<lambda>s r. animationFrame r s) st rs"

subsection \<open>The history as the specification describes it, and readings for examples\<close>

text \<open>
  The specification (sections 4.4 and 4.6) keeps a raw list of the accepted pitches: the
  published history is that whole list, smoothed with the radius, cut to the last 100.
  The source keeps no such list; this definition is what the published history would be,
  for comparison with \<open>pitchDataUpdate\<close>.
\<close>

definition spec_pitchHistory :: "nat \<Rightarrow> real list \<Rightarrow> real list" where
  "spec_pitchHistory r raw = slice_last 100 (smooth r raw)"

text \<open>A reading whose estimator answers \<open>pitch\<close> whatever it is given.\<close>

definition example_reading :: "real list \<Rightarrow> real list \<Rightarrow> real option \<Rightarrow> reading" where
  "example_reading frequencyData input pitch =
     \<lparr>getFloatFrequencyData = frequencyData, getFloatTimeDomainData = input,
      findPitch = (\<lambda>gated. pitch)\<rparr>"

text \<open>
  A reading whose estimator answers the sum of the samples it is given, so that the
  history shows which array the estimator received.
\<close>

definition probe_reading :: "real list \<Rightarrow> real list \<Rightarrow> reading" where
  "probe_reading frequencyData input =
     \<lparr>getFloatFrequencyData = frequencyData, getFloatTimeDomainData = input,
      findPitch = (\<lambda>gated. Some (sum_list gated))\<rparr>"

text \<open>
  The state after a click on the listen button in the initial state (the microphone is
  granted, the estimator finds no pitch): listening, the pitch loop pending.
\<close>

definition listening_state :: app_state where
  "listening_state = startListening True (example_reading [] [] None) initial_state"

section \<open>The note of a frequency\<close>

lemma show_int_digit: "0 \<le> k \<Longrightarrow> k < 10 \<Longrightarrow> show_int k = [''0123456789'' ! nat k]"
  by (simp add: show_int_def show_nat.simps)

lemma show_int_neg_digit:
  "- 10 < k \<Longrightarrow> k < 0 \<Longrightarrow> show_int k = [CHR ''-'', ''0123456789'' ! nat (- k)]"
  by (simp add: show_int_def show_nat.simps)

lemma noteNum_440: "noteNum 440 = 48"
  by (simp add: noteNum_def)

lemma noteNum_880: "noteNum 880 = 60"
  by (simp add: noteNum_def)

lemma noteNum_220: "noteNum 220 = 36"
  by (simp add: noteNum_def log_divide)

text \<open>
  Where the logarithm is not an integer, \<open>noteNum\<close> is enclosed between two half
  semitones by comparing 24th powers, which are rational.
\<close>

lemma root24_powr: "(2 powr (k / 24)) ^ 24 = (2::real) powr k"
  by (simp add: powr_realpow [symmetric] powr_powr)

lemma powr_le_root24:
  fixes y :: real
  assumes "0 < y" and "2 powr k \<le> y ^ 24"
  shows "2 powr (k / 24) \<le> y"
proof (rule ccontr)
  assume "\<not> 2 powr (k / 24) \<le> y"
  then have "y < 2 powr (k / 24)" by simp
  then have "y ^ 24 < (2 powr (k / 24)) ^ 24"
    using assms(1) by (intro power_strict_mono) simp_all
  with assms(2) show False by (simp add: root24_powr)
qed

lemma root24_less_powr:
  fixes y :: real
  assumes "0 < y" and "y ^ 24 < 2 powr k"
  shows "y < 2 powr (k / 24)"
proof (rule ccontr)
  assume "\<not> y < 2 powr (k / 24)"
  then have "2 powr (k / 24) \<le> y" by simp
  then have "(2 powr (k / 24)) ^ 24 \<le> y ^ 24"
    by (intro power_mono) simp_all
  with assms(2) show False by (simp add: root24_powr)
qed

lemma noteNum_bounds:
  assumes "0 < f"
    and "2 powr (a - 96) \<le> (f / 440) ^ 24"
    and "(f / 440) ^ 24 < 2 powr (b - 96)"
  shows "a / 2 \<le> noteNum f \<and> noteNum f < b / 2"
proof -
  have pos: "0 < f / 440" using assms(1) by simp
  have two: "(1::real) < 2" by simp
  have "2 powr ((a - 96) / 24) \<le> f / 440"
    using pos assms(2) by (rule powr_le_root24)
  then have lo: "(a - 96) / 24 \<le> log 2 (f / 440)"
    using le_log_iff [OF two pos] by blast
  have "f / 440 < 2 powr ((b - 96) / 24)"
    using pos assms(3) by (rule root24_less_powr)
  then have hi: "log 2 (f / 440) < (b - 96) / 24"
    using log_less_iff [OF two pos] by blast
  from lo hi show ?thesis unfolding noteNum_def by (simp add: field_simps)
qed

lemma noteNum_25: "- 5 / 2 \<le> noteNum 25 \<and> noteNum 25 < - 3 / 2"
proof -
  have 1: "(2::real) powr (- 5 - 96) \<le> (25 / 440) ^ 24"
    by (simp add: powr_minus powr_numeral power_divide field_simps)
  have 2: "(25 / 440) ^ 24 < (2::real) powr (- 3 - 96)"
    by (simp add: powr_minus powr_numeral power_divide field_simps)
  show ?thesis using noteNum_bounds [OF _ 1 2] by simp
qed

lemma noteNum_26163: "77 / 2 \<le> noteNum (26163 / 100) \<and> noteNum (26163 / 100) < 79 / 2"
proof -
  have 1: "(2::real) powr (77 - 96) \<le> (26163 / 100 / 440) ^ 24"
    by (simp add: powr_minus powr_numeral power_divide field_simps)
  have 2: "(26163 / 100 / 440) ^ 24 < (2::real) powr (79 - 96)"
    by (simp add: powr_minus powr_numeral power_divide field_simps)
  show ?thesis using noteNum_bounds [OF _ 1 2] by simp
qed

lemma Math_round_25: "Math_round (noteNum 25) = - 2"
  using noteNum_25 unfolding Math_round_def by (simp add: floor_eq_iff)

lemma floor_25: "\<lfloor>noteNum 25 / 12\<rfloor> = - 1"
  using noteNum_25 by (simp add: floor_eq_iff)

lemma Math_round_26163: "Math_round (noteNum (26163 / 100)) = 39"
  using noteNum_26163 unfolding Math_round_def by (simp add: floor_eq_iff)

lemma floor_26163: "\<lfloor>noteNum (26163 / 100) / 12\<rfloor> = 3"
  using noteNum_26163 by (simp add: floor_eq_iff)

text \<open>
  C1. The claim: \<open>getNote\<close> gives A4 at 440 Hz, A5 at 880 Hz, A3 at 220 Hz and about C4
  at 261.63 Hz. What the source computes at these four frequencies: at 440 Hz the
  semitone number is \<open>48\<close>, whose remainder by 12 is \<open>0\<close>, the index of C, and the
  names that come out are C4, C5, C3 and D#3.
\<close>

theorem getNote_reference_frequencies:
  "getNote 440 = ''C4'' \<and> getNote 880 = ''C5'' \<and> getNote 220 = ''C3'' \<and>
   getNote (26163 / 100) = ''D#3''"
proof -
  have "getNote 440 = ''C4''"
    by (simp add: getNote_def noteIndex_def octave_def noteNum_440 Math_round_def js_rem_def
        index_NOTES_def NOTES_def show_int_digit)
  moreover have "getNote 880 = ''C5''"
    by (simp add: getNote_def noteIndex_def octave_def noteNum_880 Math_round_def js_rem_def
        index_NOTES_def NOTES_def show_int_digit)
  moreover have "getNote 220 = ''C3''"
    by (simp add: getNote_def noteIndex_def octave_def noteNum_220 Math_round_def js_rem_def
        index_NOTES_def NOTES_def show_int_digit)
  moreover have "getNote (26163 / 100) = ''D#3''"
    by (simp add: getNote_def noteIndex_def octave_def Math_round_26163 floor_26163 js_rem_def
        index_NOTES_def NOTES_def show_int_digit)
  ultimately show ?thesis by simp
qed

text \<open>
  C2. The claim: for every frequency above 0 the pitch class is one of the twelve names,
  the index being in \<open>0..11\<close>. What the source computes at 25 Hz: the rounded semitone
  number is \<open>-2\<close>, the remainder keeps its sign, the index \<open>-2\<close> is outside the array
  and the name printed is \<^verbatim>\<open>undefined\<close>.
\<close>

theorem getNote_25_outside_alphabet:
  "noteIndex 25 = - 2 \<and> getNote 25 = ''undefined-1''"
  by (simp add: getNote_def noteIndex_def octave_def Math_round_25 floor_25 js_rem_def
      index_NOTES_def NOTES_def show_int_neg_digit)

section \<open>Smoothing\<close>

lemma foldl_plus_sum_list: "foldl (+) a xs = a + sum_list (xs :: real list)"
  by (induction xs arbitrary: a) simp_all

lemma length_slice:
  "start \<le> end \<Longrightarrow> end \<le> length xs \<Longrightarrow> length (slice xs start end) = end - start"
  by (simp add: slice_def)

lemma sum_list_slice:
  fixes xs :: "real list"
  assumes "start \<le> end" and "end \<le> length xs"
  shows "sum_list (slice xs start end) = (\<Sum>j = start..<end. xs ! j)"
proof -
  have "sum_list (slice xs start end) = (\<Sum>i = 0..<end - start. xs ! (start + i))"
  proof -
    have "length (slice xs start end) = end - start"
      using assms by (simp add: slice_def)
    moreover have "\<forall>i<end - start. slice xs start end ! i = xs ! (start + i)"
      using assms by (simp add: slice_def)
    ultimately show ?thesis by (simp add: sum_list_sum_nth)
  qed
  also have "\<dots> = (\<Sum>j = start..<end. xs ! j)"
    using assms sum.shift_bounds_nat_ivl [of "\<lambda>j. xs ! j" 0 start "end - start"]
    by (simp add: add.commute)
  finally show ?thesis .
qed

lemma smoothedData_nth:
  assumes "i < length xs"
  shows "smoothedData r xs ! i =
    (\<Sum>j = nat (max 0 (int i - int r))..<min (length xs) (i + r + 1). xs ! j)
      / real (min (length xs) (i + r + 1) - nat (max 0 (int i - int r)))"
proof -
  let ?lo = "nat (max 0 (int i - int r))" and ?hi = "min (length xs) (i + r + 1)"
  have le: "?lo \<le> ?hi" using assms by auto
  have hi: "?hi \<le> length xs" by simp
  have "smoothedData r xs ! i =
      foldl (+) 0 (slice xs ?lo ?hi) / real (length (slice xs ?lo ?hi))"
    using assms by (simp add: smoothedData_def Let_def)
  then show ?thesis
    by (simp only: foldl_plus_sum_list sum_list_slice [OF le hi] length_slice [OF le hi]
        add_0_left)
qed

lemma length_smooth: "length (smooth r xs) = length xs"
  by (simp add: smooth_def smoothedData_def)

lemma pitchDataUpdate_smooth:
  "pitchDataUpdate r p h = slice_last 100 (smooth r (h @ [p]))"
  by (simp add: pitchDataUpdate_def smooth_def Let_def)

text \<open>
  C5. For every sequence \<open>xs\<close> and radius \<open>r\<close>, the smoothing returns a sequence of the
  length of \<open>xs\<close> whose position \<open>i\<close> is the arithmetic mean of the positions from
  \<open>max 0 (i - r)\<close> up to, and without, \<open>min (length xs) (i + r + 1)\<close> of \<open>xs\<close>; with
  radius 0 it returns \<open>xs\<close>.
\<close>

theorem smooth_window_mean:
  "length (smooth r xs) = length xs \<and>
   (\<forall>i<length xs.
      smooth r xs ! i =
        (\<Sum>j = nat (max 0 (int i - int r))..<min (length xs) (i + r + 1). xs ! j)
          / real (min (length xs) (i + r + 1) - nat (max 0 (int i - int r)))) \<and>
   smooth 0 xs = xs"
proof (intro conjI allI impI)
  show "length (smooth r xs) = length xs" by (rule length_smooth)
next
  fix i assume i: "i < length xs"
  show "smooth r xs ! i =
        (\<Sum>j = nat (max 0 (int i - int r))..<min (length xs) (i + r + 1). xs ! j)
          / real (min (length xs) (i + r + 1) - nat (max 0 (int i - int r)))"
  proof (cases "0 < r")
    case True
    then show ?thesis using i by (simp add: smooth_def smoothedData_nth)
  next
    case False
    then have r: "r = 0" by simp
    have "min (length xs) (i + 1) = Suc i" using i by simp
    then show ?thesis using r by (simp add: smooth_def)
  qed
next
  show "smooth 0 xs = xs" by (simp add: smooth_def)
qed

theorem smooth_window_mean_witness:
  "(1::nat) < length [100, 200, 400 :: real] \<and> smooth 1 [100, 200, 400] ! 1 = 700 / 3"
  using smooth_window_mean [of 1 "[100, 200, 400]"]
  by (simp add: atLeastLessThanSuc)

section \<open>The pitch tick\<close>

lemma pitchData_updateCalibration [simp]: "pitchData (updateCalibration k n r st) = pitchData st"
  by (simp add: updateCalibration_def requestAnimationFrame_def Let_def split: option.splits)

lemma pitchData_calibrateNoise [simp]: "pitchData (calibrateNoise r st) = pitchData st"
  by (simp add: calibrateNoise_def)

lemma length_slice_last: "length (slice_last n xs) \<le> n"
  by (simp add: slice_last_def)

lemma length_pitchDataUpdate: "length (pitchDataUpdate sm p h) = min 100 (Suc (length h))"
  by (simp add: pitchDataUpdate_smooth slice_last_def length_smooth)

lemma pitchData_updatePitch:
  "pitchData (updatePitch c sm r st) =
    (case findPitch r (gatedInput c (noiseProfileRef st) (getFloatTimeDomainData r)) of
       None \<Rightarrow> pitchData st
     | Some p \<Rightarrow> if \<not> c \<or> noiseFloorRef st < p then pitchDataUpdate sm p (pitchData st)
         else pitchData st)"
  by (simp add: updatePitch_def requestAnimationFrame_def Let_def split: option.splits)

lemma currentNote_updatePitch:
  "currentNote (updatePitch c sm r st) =
    (case findPitch r (gatedInput c (noiseProfileRef st) (getFloatTimeDomainData r)) of
       None \<Rightarrow> currentNote st
     | Some p \<Rightarrow> if \<not> c \<or> noiseFloorRef st < p then getNote p else currentNote st)"
  by (simp add: updatePitch_def requestAnimationFrame_def Let_def split: option.splits)

lemma bounded_updatePitch:
  "length (pitchData st) \<le> 100 \<Longrightarrow> length (pitchData (updatePitch c sm r st)) \<le> 100"
  by (simp add: pitchData_updatePitch length_pitchDataUpdate split: option.splits)

lemma bounded_runCallback:
  "length (pitchData st) \<le> 100 \<Longrightarrow> length (pitchData (runCallback r st hcb)) \<le> 100"
  by (simp add: runCallback_def bounded_updatePitch split: callback.splits)

lemma bounded_foldl_runCallback:
  "length (pitchData st) \<le> 100 \<Longrightarrow> length (pitchData (foldl (runCallback r) st cbs)) \<le> 100"
  by (induction cbs arbitrary: st) (simp_all add: bounded_runCallback)

lemma bounded_step:
  "length (pitchData st) \<le> 100 \<Longrightarrow> length (pitchData (step st ev)) \<le> 100"
  by (cases ev)
    (simp_all add: animationFrame_def bounded_foldl_runCallback startListening_def
      stopListening_def handleCancelNoiseChange_def handleCalibrate_def Let_def
      bounded_updatePitch)

lemma bounded_foldl_step:
  "length (pitchData st) \<le> 100 \<Longrightarrow> length (pitchData (foldl step st evs)) \<le> 100"
  by (induction evs arbitrary: st) (simp_all add: bounded_step)

lemma pitchDataUpdate_0: "pitchDataUpdate 0 p h = drop (Suc (length h) - 100) h @ [p]"
  by (simp add: pitchDataUpdate_def slice_last_def)

lemma slice_last_append: "slice_last n (slice_last n xs @ ys) = slice_last n (xs @ ys)"
proof (cases "length xs \<le> n")
  case True
  then show ?thesis by (simp add: slice_last_def)
next
  case False
  then show ?thesis by (simp add: slice_last_def min_def add.commute)
qed

lemma foldl_pitchDataUpdate_0:
  "foldl (\<lambda>h p. pitchDataUpdate 0 p h) (slice_last 100 h) ps = slice_last 100 (h @ ps)"
proof (induction ps arbitrary: h)
  case Nil
  show ?case by simp
next
  case (Cons p ps)
  have "pitchDataUpdate 0 p (slice_last 100 h) = slice_last 100 (h @ [p])"
    by (simp add: pitchDataUpdate_smooth smooth_def slice_last_append)
  then show ?case using Cons.IH [of "h @ [p]"] by simp
qed

lemma length_subtractProfile: "length (subtractProfile profile input) = length input"
  by (simp add: subtractProfile_def)

lemma length_gatedInput: "length (gatedInput c pr input) = length input"
  by (simp add: gatedInput_def length_subtractProfile split: option.splits)

lemma pitchData_updatePitch_example:
  "pitchData (updatePitch False sm (example_reading fd input (Some p)) st) =
     pitchDataUpdate sm p (pitchData st)"
  by (simp add: pitchData_updatePitch example_reading_def)

lemma pitchDataUpdate_1_first: "pitchDataUpdate 1 100 [] = [100]"
  by (simp add: pitchDataUpdate_def smoothedData_def slice_def slice_last_def Let_def)

lemma pitchDataUpdate_1_second: "pitchDataUpdate 1 200 [100] = [150, 150]"
  by (simp add: pitchDataUpdate_def smoothedData_def slice_def slice_last_def Let_def)

lemma pitchDataUpdate_1_third: "pitchDataUpdate 1 300 [150, 150] = [150, 200, 225]"
  by (simp add: pitchDataUpdate_def smoothedData_def slice_def slice_last_def Let_def)

lemma smooth_1_raw: "smooth 1 [100, 200, 300] = [150, 200, 250]"
  by (simp add: smooth_def smoothedData_def slice_def Let_def)

text \<open>
  The array handed to the estimator by a loop whose closure holds the flag \<open>c\<close>: it has
  the length of the frame read; with \<open>c\<close> on and a profile (of at least one cell) in
  place, its sample \<open>i\<close> is the frame's sample \<open>i\<close> minus the profile's cell
  \<open>i mod length profile\<close>, raised to 0 when negative; with \<open>c\<close> off, or no profile, it
  is the frame itself.
\<close>

lemma gatedInput_subtracts_profile:
  "length (gatedInput c pr input) = length input \<and>
   (\<forall>profile. c \<and> pr = Some profile \<and> profile \<noteq> [] \<longrightarrow>
      (\<forall>i<length input.
         i mod length profile < length profile \<and>
         gatedInput c pr input ! i = max 0 (input ! i - profile ! (i mod length profile)) \<and>
         0 \<le> gatedInput c pr input ! i)) \<and>
   (\<not> c \<or> pr = None \<longrightarrow> gatedInput c pr input = input)"
  by (auto simp add: length_gatedInput gatedInput_def subtractProfile_def split: option.splits)

text \<open>
  A tick of a loop whose closure holds the flag \<open>c\<close> and the radius \<open>sm\<close>: it leaves the
  history and the current note as they are when the estimator finds no pitch, and when
  \<open>c\<close> is on and the pitch is not above the noise floor. Otherwise the pitch is
  appended, the list is smoothed and cut to its last 100 entries, and the current note is
  the note of the pitch; with radius 0 the pitch is the last entry of the history.
\<close>

lemma updatePitch_gate:
  "(let pitch = findPitch r (gatedInput c (noiseProfileRef st) (getFloatTimeDomainData r));
        st' = updatePitch c sm r st
    in (pitch = None \<longrightarrow> pitchData st' = pitchData st \<and> currentNote st' = currentNote st) \<and>
       (\<forall>p. pitch = Some p \<and> c \<and> p \<le> noiseFloorRef st \<longrightarrow>
          pitchData st' = pitchData st \<and> currentNote st' = currentNote st) \<and>
       (\<forall>p. pitch = Some p \<and> (\<not> c \<or> noiseFloorRef st < p) \<longrightarrow>
          pitchData st' = slice_last 100 (smooth sm (pitchData st @ [p])) \<and>
          currentNote st' = getNote p \<and>
          (sm = 0 \<longrightarrow> pitchData st' \<noteq> [] \<and> last (pitchData st') = p)))"
  by (auto simp add: Let_def pitchData_updatePitch currentNote_updatePitch
      pitchDataUpdate_smooth pitchDataUpdate_0 [unfolded pitchDataUpdate_smooth])

text \<open>
  C7. After any sequence of events the history has at most 100 entries. An update makes
  it one longer up to 100, its result is the end of the smoothed list (the entries stay
  in their order and the ones dropped are the first), and with radius 0 it is the old
  history without the entries beyond the last 99, then the new pitch.
\<close>

theorem pitchData_bounded_fifo:
  "length (pitchData (run evs)) \<le> 100 \<and>
   length (pitchDataUpdate sm p h) = min 100 (Suc (length h)) \<and>
   suffix (pitchDataUpdate sm p h) (smooth sm (h @ [p])) \<and>
   pitchDataUpdate 0 p h = drop (Suc (length h) - 100) h @ [p]"
proof (intro conjI)
  show "length (pitchData (run evs)) \<le> 100"
    unfolding run_def by (rule bounded_foldl_step) (simp add: initial_state_def)
  show "length (pitchDataUpdate sm p h) = min 100 (Suc (length h))"
    by (rule length_pitchDataUpdate)
  show "suffix (pitchDataUpdate sm p h) (smooth sm (h @ [p]))"
    by (simp add: pitchDataUpdate_smooth slice_last_def suffix_drop)
  show "pitchDataUpdate 0 p h = drop (Suc (length h) - 100) h @ [p]"
    by (rule pitchDataUpdate_0)
qed

theorem pitchData_bounded_fifo_witness:
  "pitchDataUpdate 0 2 (replicate 100 1) = replicate 99 1 @ [2]"
  using pitchData_bounded_fifo [of "[]" 0 2 "replicate 100 1"] by simp

section \<open>Calibration\<close>

text \<open>
  A pitch tick leaves the calibration's part of the state alone, and a calibration step
  reads nothing else. So in an animation frame only the pending calibration loops matter
  for that part, whatever else is pending and in whatever order.
\<close>

lemma calibrationView_updatePitch [simp]:
  "calibrationView (updatePitch c sm r st) = calibrationView st"
  by (simp add: calibrationView_def calibrationsPending_def updatePitch_def
      requestAnimationFrame_def Let_def split: option.splits)

lemma calibrationView_updateCalibration:
  "calibrationView (updateCalibration k n r st) =
    (case noiseProfileRef st of
       None \<Rightarrow> calibrationView st
     | Some profile \<Rightarrow>
         let profile' = (if k = 0 then set_array profile (getFloatFrequencyData r)
                         else max_into profile (getFloatFrequencyData r))
         in if k + 1 < n
            then (Some profile', noiseFloorRef st, isCalibrating st, calibrationTime st,
                  calibrationsPending st @ [UpdateCalibration (k + 1) n])
            else (Some profile', Math_max profile', False, calibrationTime st,
                  calibrationsPending st))"
  by (simp add: calibrationView_def calibrationsPending_def updateCalibration_def
      requestAnimationFrame_def Let_def split: option.splits)

lemma calibrationView_updateCalibration_cong:
  "calibrationView s = calibrationView s' \<Longrightarrow>
   calibrationView (updateCalibration k n r s) = calibrationView (updateCalibration k n r s')"
  unfolding calibrationView_updateCalibration
  by (auto simp add: calibrationView_def Let_def split: option.splits)

lemma calibrationView_runCallback_cong:
  assumes "calibrationView s = calibrationView s'"
  shows "calibrationView (runCallback r s hcb) = calibrationView (runCallback r s' hcb)"
proof (cases "snd hcb")
  case (UpdatePitch c sm)
  then show ?thesis using assms by (simp add: runCallback_def)
next
  case (UpdateCalibration k n)
  then show ?thesis
    using calibrationView_updateCalibration_cong [OF assms, of k n r]
    by (simp only: runCallback_def callback.case)
qed

lemma calibrationView_runCallback_pitch:
  "\<not> isCalibration (snd hcb) \<Longrightarrow> calibrationView (runCallback r s hcb) = calibrationView s"
  by (cases "snd hcb") (simp_all add: runCallback_def)

lemma calibrationView_foldl_runCallback:
  "calibrationView s = calibrationView s' \<Longrightarrow>
   calibrationView (foldl (runCallback r) s cbs) =
   calibrationView (foldl (runCallback r) s' (filter (\<lambda>hcb. isCalibration (snd hcb)) cbs))"
proof (induction cbs arbitrary: s s')
  case Nil
  then show ?case by simp
next
  case (Cons hcb cbs)
  show ?case
  proof (cases "isCalibration (snd hcb)")
    case True
    have "calibrationView (runCallback r s hcb) = calibrationView (runCallback r s' hcb)"
      using Cons.prems by (rule calibrationView_runCallback_cong)
    from Cons.IH [OF this] show ?thesis using True by simp
  next
    case False
    then have "calibrationView (runCallback r s hcb) = calibrationView s'"
      using Cons.prems by (simp add: calibrationView_runCallback_pitch)
    from Cons.IH [OF this] show ?thesis using False by simp
  qed
qed

lemma calibrationView_clear_pending:
  "calibrationView (st\<lparr>pending := []\<rparr>) =
    (noiseProfileRef st, noiseFloorRef st, isCalibrating st, calibrationTime st, [])"
  by (simp add: calibrationView_def calibrationsPending_def)

lemma single_calibration_pending:
  assumes "calibrationsPending st = [cb]"
  shows "\<exists>h. filter (\<lambda>hcb. isCalibration (snd hcb)) (pending st) = [(h, cb)]"
proof -
  have "map snd (filter (\<lambda>hcb. isCalibration (snd hcb)) (pending st)) = [cb]"
    using assms by (simp add: calibrationsPending_def filter_map comp_def)
  then show ?thesis by (auto simp add: map_eq_Cons_conv)
qed

lemma calibrationView_animationFrame:
  assumes "calibrationView st = (Some profile, fl, cal, ct, [UpdateCalibration k n])"
    and "0 < k"
  shows "calibrationView (animationFrame r st) =
    (if k + 1 < n
     then (Some (max_into profile (getFloatFrequencyData r)), fl, cal, ct,
           [UpdateCalibration (k + 1) n])
     else (Some (max_into profile (getFloatFrequencyData r)),
           Math_max (max_into profile (getFloatFrequencyData r)), False, ct, []))"
proof -
  from assms(1) have pend: "calibrationsPending st = [UpdateCalibration k n]"
    and fields: "noiseProfileRef st = Some profile" "noiseFloorRef st = fl"
      "isCalibrating st = cal" "calibrationTime st = ct"
    by (simp_all add: calibrationView_def)
  from single_calibration_pending [OF pend] obtain h
    where h: "filter (\<lambda>hcb. isCalibration (snd hcb)) (pending st) = [(h, UpdateCalibration k n)]"
    by blast
  have "calibrationView (animationFrame r st) =
      calibrationView (foldl (runCallback r) (st\<lparr>pending := []\<rparr>)
        (filter (\<lambda>hcb. isCalibration (snd hcb)) (pending st)))"
    unfolding animationFrame_def by (rule calibrationView_foldl_runCallback) simp
  also have "\<dots> = calibrationView (updateCalibration k n r (st\<lparr>pending := []\<rparr>))"
    by (simp add: h runCallback_def)
  finally show ?thesis
    using assms(2) fields
    by (simp add: calibrationView_updateCalibration calibrationsPending_def Let_def)
qed

lemma set_array_fresh: "set_array (replicate (length d) 0) d = d"
  by (simp add: set_array_def)

lemma calibrationView_calibrateNoise:
  "calibrationView (calibrateNoise r st) =
    (if 1 < calibrationTime st * 60
     then (Some (getFloatFrequencyData r), noiseFloorRef st, True, calibrationTime st,
           calibrationsPending st @ [UpdateCalibration 1 (calibrationTime st * 60)])
     else (Some (getFloatFrequencyData r), Math_max (getFloatFrequencyData r), False,
           calibrationTime st, calibrationsPending st))"
  by (simp add: calibrateNoise_def calibrationView_updateCalibration set_array_fresh
      calibrationsPending_def Let_def)

lemma animationFrames_snoc: "animationFrames (rs @ [r]) st = animationFrame r (animationFrames rs st)"
  by (simp add: animationFrames_def)

lemma calibration_in_progress:
  assumes "calibrationsPending st = []"
    and "Suc (length rs) < calibrationTime st * 60"
  shows "calibrationView (animationFrames rs (calibrateNoise r0 st)) =
    (Some (foldl max_into (getFloatFrequencyData r0) (map getFloatFrequencyData rs)),
     noiseFloorRef st, True, calibrationTime st,
     [UpdateCalibration (Suc (length rs)) (calibrationTime st * 60)])"
  using assms(2)
proof (induction rs rule: rev_induct)
  case Nil
  then show ?case
    using assms(1) by (simp add: animationFrames_def calibrationView_calibrateNoise)
next
  case (snoc r rs)
  then have "calibrationView (animationFrames rs (calibrateNoise r0 st)) =
    (Some (foldl max_into (getFloatFrequencyData r0) (map getFloatFrequencyData rs)),
     noiseFloorRef st, True, calibrationTime st,
     [UpdateCalibration (Suc (length rs)) (calibrationTime st * 60)])"
    by simp
  from calibrationView_animationFrame [OF this, of r] snoc.prems
  show ?case by (simp add: animationFrames_snoc)
qed

lemma calibration_finished:
  assumes "calibrationsPending st = []"
    and "Suc (length rs) = calibrationTime st * 60"
  shows "calibrationView (animationFrames rs (calibrateNoise r0 st)) =
    (Some (foldl max_into (getFloatFrequencyData r0) (map getFloatFrequencyData rs)),
     Math_max (foldl max_into (getFloatFrequencyData r0) (map getFloatFrequencyData rs)),
     False, calibrationTime st, [])"
proof (cases rs rule: rev_cases)
  case Nil
  then show ?thesis
    using assms by (simp add: animationFrames_def calibrationView_calibrateNoise)
next
  case (snoc rs' r)
  then have "Suc (length rs') < calibrationTime st * 60" using assms(2) by simp
  from calibrationView_animationFrame [OF calibration_in_progress [OF assms(1) this], of r]
  show ?thesis using snoc assms(2) by (simp add: animationFrames_snoc)
qed

lemma length_max_into: "length (max_into p d) = length p"
  by (simp add: max_into_def)

lemma max_into_nth:
  "length d = length p \<Longrightarrow> i < length p \<Longrightarrow> max_into p d ! i = max (p ! i) (d ! i)"
  by (simp add: max_into_def)

lemma length_foldl_max_into: "length (foldl max_into p ds) = length p"
  by (induction ds arbitrary: p) (simp_all add: length_max_into)

lemma Max_insert_max:
  fixes a :: real
  assumes "finite A"
  shows "Max (insert (max a b) A) = Max (insert a (insert b A))"
proof (cases "A = {}")
  case True
  then show ?thesis by simp
next
  case False
  then show ?thesis using assms by (simp add: max.assoc)
qed

lemma foldl_max_into_nth:
  assumes "\<forall>d\<in>set ds. length d = length p" and "i < length p"
  shows "foldl max_into p ds ! i = Max (insert (p ! i) ((\<lambda>d. d ! i) ` set ds))"
  using assms
proof (induction ds arbitrary: p)
  case Nil
  then show ?case by simp
next
  case (Cons d ds)
  have len: "length (max_into p d) = length p" by (rule length_max_into)
  have "foldl max_into (max_into p d) ds ! i =
      Max (insert (max_into p d ! i) ((\<lambda>d. d ! i) ` set ds))"
    using Cons.prems by (intro Cons.IH) (simp_all add: len)
  also have "max_into p d ! i = max (p ! i) (d ! i)"
    using Cons.prems by (simp add: max_into_nth)
  finally show ?case by (simp add: Max_insert_max)
qed

lemma Math_max_Max: "xs \<noteq> [] \<Longrightarrow> Math_max xs = Max (set xs)"
  by (cases xs) (simp_all add: Max.set_eq_fold [symmetric])

lemma noiseProfileRef_view: "calibrationView s = (pr, fl, cal, ct, cbs) \<Longrightarrow> noiseProfileRef s = pr"
  and noiseFloorRef_view: "calibrationView s = (pr, fl, cal, ct, cbs) \<Longrightarrow> noiseFloorRef s = fl"
  and isCalibrating_view: "calibrationView s = (pr, fl, cal, ct, cbs) \<Longrightarrow> isCalibrating s = cal"
  and calibrationsPending_view:
    "calibrationView s = (pr, fl, cal, ct, cbs) \<Longrightarrow> calibrationsPending s = cbs"
  by (simp_all add: calibrationView_def)

lemma pitchDataUpdate_empty: "pitchDataUpdate sm p [] = [p]"
  by (simp add: pitchDataUpdate_def smoothedData_def slice_def slice_last_def Let_def)

lemma calibrationView_cancelAnimationFrame:
  "noiseFloorRef (cancelAnimationFrame h st) = noiseFloorRef st"
  "noiseProfileRef (cancelAnimationFrame h st) = noiseProfileRef st"
  by (simp_all add: cancelAnimationFrame_def)

lemma stopListening_fields:
  "pitchData (stopListening st) = []"
  "currentNote (stopListening st) = []"
  "isListening (stopListening st) = False"
  "noiseFloorRef (stopListening st) = noiseFloorRef st"
  "noiseProfileRef (stopListening st) = noiseProfileRef st"
  "cancelNoise (stopListening st) = cancelNoise st"
  "isCalibrating (stopListening st) = isCalibrating st"
  "calibrationTime (stopListening st) = calibrationTime st"
  "smoothness (stopListening st) = smoothness st"
  by (simp_all add: stopListening_def cancelAnimationFrame_def Let_def split: option.splits)

lemma updatePitch_view_fields:
  "noiseFloorRef (updatePitch c sm r st) = noiseFloorRef st"
  "noiseProfileRef (updatePitch c sm r st) = noiseProfileRef st"
  "isCalibrating (updatePitch c sm r st) = isCalibrating st"
  using calibrationView_updatePitch [of c sm r st] by (simp_all add: calibrationView_def)

lemma currentNote_calibrateNoise [simp]: "currentNote (calibrateNoise r st) = currentNote st"
  by (simp add: calibrateNoise_def updateCalibration_def requestAnimationFrame_def Let_def)

lemma noiseFloorRef_calibrateNoise:
  "1 < calibrationTime st * 60 \<Longrightarrow> noiseFloorRef (calibrateNoise r st) = noiseFloorRef st"
  using calibrationView_calibrateNoise [of r st] by (simp add: calibrationView_def)

lemma updatePitch_from_empty:
  assumes "pitchData s = []" and "currentNote s = []"
  shows "pitchData (updatePitch c sm r s) = [] \<and> currentNote (updatePitch c sm r s) = [] \<or>
    (\<exists>p. pitchData (updatePitch c sm r s) = [p] \<and>
      currentNote (updatePitch c sm r s) = getNote p)"
proof (cases "findPitch r (gatedInput c (noiseProfileRef s) (getFloatTimeDomainData r))")
  case None
  then show ?thesis
    using assms by (simp add: pitchData_updatePitch currentNote_updatePitch)
next
  case (Some p)
  then show ?thesis
    using assms
    by (simp add: pitchData_updatePitch currentNote_updatePitch pitchDataUpdate_empty)
qed

lemma listening_state_fields:
  "calibrationsPending listening_state = []"
  "calibrationTime listening_state = 5"
  "noiseFloorRef listening_state = 0"
  "isListening listening_state"
  "\<not> cancelNoise listening_state"
  by (simp_all add: listening_state_def startListening_def updatePitch_def initial_state_def
      requestAnimationFrame_def calibrationsPending_def example_reading_def gatedInput_def
      Let_def)

lemma map2_max_same: "map2 max p p = (p :: real list)"
  by (induction p) simp_all

lemma foldl_max_into_same: "foldl max_into p (replicate n p) = p"
  by (induction n) (simp_all add: max_into_def map2_max_same)

lemma isListening_runCallback [simp]: "isListening (runCallback r s hcb) = isListening s"
  by (cases "snd hcb")
    (simp_all add: runCallback_def updatePitch_def updateCalibration_def
      requestAnimationFrame_def Let_def split: option.splits)

lemma isListening_foldl_runCallback: "isListening (foldl (runCallback r) s cbs) = isListening s"
  by (induction cbs arbitrary: s) simp_all

lemma isListening_animationFrames [simp]: "isListening (animationFrames rs s) = isListening s"
  by (induction rs arbitrary: s)
    (simp_all add: animationFrames_def animationFrame_def isListening_foldl_runCallback)

lemma isListening_calibrateNoise [simp]: "isListening (calibrateNoise r s) = isListening s"
  by (simp add: calibrateNoise_def updateCalibration_def requestAnimationFrame_def Let_def)

lemma foldl_step_AnimationFrame:
  "foldl step s (replicate n (AnimationFrame r)) = animationFrames (replicate n r) s"
  by (induction n arbitrary: s) (simp_all add: animationFrames_def)

lemma startListening_cancelNoise_off:
  assumes "\<not> cancelNoise st"
  shows "noiseFloorRef (startListening True r st) = noiseFloorRef st"
    and "noiseProfileRef (startListening True r st) = noiseProfileRef st"
    and "isListening (startListening True r st)"
  using assms by (simp_all add: startListening_def updatePitch_view_fields Let_def)

text \<open>
  A calibration on its own: \<open>calibrateNoise\<close> on the reading \<open>r0\<close> with no other
  calibration loop pending, then the animation frames of the readings \<open>rs\<close>, all spectra
  having the same number of bins (at least one); together they are the
  \<open>calibrationTime * 60\<close> frames of the calibration. The first frame is the profile as
  it is, whatever the profile was before. After \<open>k\<close> further frames each bin of the
  profile is the maximum of that bin over the \<open>k + 1\<close> frames read. Before the last frame
  the calibration is still marked as running and the noise floor is what it was before
  the calibration; after the last frame the calibration is over, no calibration loop is
  pending, and the noise floor is the maximum of the profile.
\<close>

lemma calibration_profile_binwise_max:
  assumes "calibrationsPending st = []"
    and "Suc (length rs) = calibrationTime st * 60"
    and "\<forall>r\<in>set rs. length (getFloatFrequencyData r) = length (getFloatFrequencyData r0)"
    and "getFloatFrequencyData r0 \<noteq> []"
  shows "noiseProfileRef (calibrateNoise r0 st) = Some (getFloatFrequencyData r0) \<and>
    (\<forall>k\<le>length rs.
       \<exists>profile.
         noiseProfileRef (animationFrames (take k rs) (calibrateNoise r0 st)) = Some profile \<and>
         length profile = length (getFloatFrequencyData r0) \<and>
         (\<forall>i<length profile.
            profile ! i = Max ((\<lambda>r. getFloatFrequencyData r ! i) ` set (r0 # take k rs))) \<and>
         (k < length rs \<longrightarrow>
            isCalibrating (animationFrames (take k rs) (calibrateNoise r0 st)) \<and>
            noiseFloorRef (animationFrames (take k rs) (calibrateNoise r0 st)) =
              noiseFloorRef st) \<and>
         (k = length rs \<longrightarrow>
            \<not> isCalibrating (animationFrames (take k rs) (calibrateNoise r0 st)) \<and>
            calibrationsPending (animationFrames (take k rs) (calibrateNoise r0 st)) = [] \<and>
            noiseFloorRef (animationFrames (take k rs) (calibrateNoise r0 st)) =
              Max (set profile)))"
proof (intro conjI allI impI)
  show "noiseProfileRef (calibrateNoise r0 st) = Some (getFloatFrequencyData r0)"
    using calibrationView_calibrateNoise [of r0 st]
    by (simp add: calibrationView_def split: if_splits)
next
  fix k assume k: "k \<le> length rs"
  let ?s = "animationFrames (take k rs) (calibrateNoise r0 st)"
  let ?p = "foldl max_into (getFloatFrequencyData r0) (map getFloatFrequencyData (take k rs))"
  have lens: "\<forall>d\<in>set (map getFloatFrequencyData (take k rs)).
      length d = length (getFloatFrequencyData r0)"
    using assms(3) by (auto dest: in_set_takeD)
  have len: "length ?p = length (getFloatFrequencyData r0)"
    by (rule length_foldl_max_into)
  have nth: "\<forall>i<length ?p.
      ?p ! i = Max ((\<lambda>r. getFloatFrequencyData r ! i) ` set (r0 # take k rs))"
    using foldl_max_into_nth [OF lens] len by (simp add: image_image)
  have ne: "?p \<noteq> []" using len assms(4) by auto
  show "\<exists>profile.
         noiseProfileRef ?s = Some profile \<and>
         length profile = length (getFloatFrequencyData r0) \<and>
         (\<forall>i<length profile.
            profile ! i = Max ((\<lambda>r. getFloatFrequencyData r ! i) ` set (r0 # take k rs))) \<and>
         (k < length rs \<longrightarrow> isCalibrating ?s \<and> noiseFloorRef ?s = noiseFloorRef st) \<and>
         (k = length rs \<longrightarrow>
            \<not> isCalibrating ?s \<and> calibrationsPending ?s = [] \<and>
            noiseFloorRef ?s = Max (set profile))"
  proof (cases "k < length rs")
    case True
    then have "Suc (length (take k rs)) < calibrationTime st * 60"
      using assms(2) by simp
    note v = calibration_in_progress [OF assms(1) this, of r0]
    show ?thesis
      using True len nth noiseProfileRef_view [OF v] noiseFloorRef_view [OF v]
        isCalibrating_view [OF v]
      by (intro exI [of _ ?p]) simp
  next
    case False
    then have eq: "take k rs = rs" using k by simp
    note v = calibration_finished [OF assms(1) assms(2), of r0]
    show ?thesis
      using False len nth noiseProfileRef_view [OF v] noiseFloorRef_view [OF v]
        isCalibrating_view [OF v] calibrationsPending_view [OF v] Math_max_Max [OF ne]
      by (intro exI [of _ ?p]) (simp add: eq)
  qed
qed

section \<open>The loops and the settings of the session\<close>

text \<open>
  A pitch loop keeps the \<^verbatim>\<open>cancelNoise\<close> and the \<^verbatim>\<open>smoothness\<close> of the render in which
  \<^verbatim>\<open>startListening\<close> ran. No callback changes the two settings of the session, and an
  animation frame leaves the pending pitch loops as they are, closures included. So a
  loop started before the checkbox or the slider is moved goes on with the old values.
\<close>

lemma loopView_updateCalibration [simp]:
  "loopView (updateCalibration k n r s) = loopView s"
  by (simp add: loopView_def pitchLoops_def updateCalibration_def requestAnimationFrame_def
      Let_def split: option.splits)

lemma loopView_calibrateNoise [simp]: "loopView (calibrateNoise r s) = loopView s"
  by (simp add: calibrateNoise_def) (simp add: loopView_def pitchLoops_def)

lemma loopView_updatePitch:
  "loopView (updatePitch c sm r s) = (cancelNoise s, smoothness s, pitchLoops s @ [UpdatePitch c sm])"
  by (simp add: loopView_def pitchLoops_def updatePitch_def requestAnimationFrame_def Let_def
      split: option.splits)

lemma loopView_runCallback:
  "loopView (runCallback r s hcb) =
    (cancelNoise s, smoothness s,
     pitchLoops s @ (if isCalibration (snd hcb) then [] else [snd hcb]))"
  by (cases "snd hcb") (simp_all add: runCallback_def loopView_updatePitch, simp add: loopView_def)

lemma loopView_foldl_runCallback:
  "loopView (foldl (runCallback r) s cbs) =
    (cancelNoise s, smoothness s,
     pitchLoops s @ filter (\<lambda>cb. \<not> isCalibration cb) (map snd cbs))"
proof (induction cbs arbitrary: s)
  case Nil
  show ?case by (simp add: loopView_def)
next
  case (Cons hcb cbs)
  have "loopView (runCallback r s hcb) =
    (cancelNoise s, smoothness s,
     pitchLoops s @ (if isCalibration (snd hcb) then [] else [snd hcb]))"
    by (rule loopView_runCallback)
  then have f: "cancelNoise (runCallback r s hcb) = cancelNoise s"
    "smoothness (runCallback r s hcb) = smoothness s"
    "pitchLoops (runCallback r s hcb) =
      pitchLoops s @ (if isCalibration (snd hcb) then [] else [snd hcb])"
    by (simp_all add: loopView_def)
  show ?case unfolding foldl_Cons Cons.IH f by simp
qed

lemma loopView_animationFrame [simp]: "loopView (animationFrame r s) = loopView s"
  unfolding animationFrame_def loopView_foldl_runCallback
  by (simp add: loopView_def pitchLoops_def)

lemma loopView_animationFrames [simp]: "loopView (animationFrames rs s) = loopView s"
  by (induction rs arbitrary: s) (simp_all add: animationFrames_def)

text \<open>Frames in which the estimator finds no pitch leave the history alone.\<close>

lemma pitchData_runCallback_quiet:
  "\<forall>x. findPitch r x = None \<Longrightarrow> pitchData (runCallback r s hcb) = pitchData s"
  by (cases "snd hcb") (simp_all add: runCallback_def pitchData_updatePitch)

lemma pitchData_animationFrame_quiet:
  assumes "\<forall>x. findPitch r x = None"
  shows "pitchData (animationFrame r s) = pitchData s"
proof -
  have "pitchData (foldl (runCallback r) s' cbs) = pitchData s'" for s' cbs
    by (induction cbs arbitrary: s') (simp_all add: pitchData_runCallback_quiet [OF assms])
  then show ?thesis by (simp add: animationFrame_def)
qed

lemma pitchData_animationFrames_quiet:
  "\<forall>r\<in>set rs. \<forall>x. findPitch r x = None \<Longrightarrow> pitchData (animationFrames rs s) = pitchData s"
  by (induction rs arbitrary: s)
    (simp_all add: animationFrames_def pitchData_animationFrame_quiet)

lemma only_pitch_loops:
  assumes "calibrationsPending s = []" and "pitchLoops s = cbs"
  shows "map snd (pending s) = cbs"
proof -
  have "\<forall>cb\<in>set (map snd (pending s)). \<not> isCalibration cb"
    using assms(1) unfolding calibrationsPending_def by (simp add: filter_empty_conv)
  then have "filter (\<lambda>cb. \<not> isCalibration cb) (map snd (pending s)) = map snd (pending s)"
    by (intro filter_True) simp
  then show ?thesis using assms(2) by (simp add: pitchLoops_def)
qed

lemma animationFrame_only_pitch:
  assumes "map snd (pending st) = [UpdatePitch c sm]"
  shows "animationFrame r st = updatePitch c sm r (st\<lparr>pending := []\<rparr>)"
proof -
  from assms obtain h where "pending st = [(h, UpdatePitch c sm)]"
    by (auto simp add: map_eq_Cons_conv)
  then show ?thesis by (simp add: animationFrame_def runCallback_def)
qed

lemma pitchData_animationFrame_only_pitch:
  assumes "map snd (pending st) = [UpdatePitch c sm]"
  shows "pitchData (animationFrame r st) = pitchData (updatePitch c sm r st)"
    and "currentNote (animationFrame r st) = currentNote (updatePitch c sm r st)"
  unfolding animationFrame_only_pitch [OF assms]
  by (simp_all add: pitchData_updatePitch currentNote_updatePitch split: option.splits)

lemma listening_state_loop:
  "loopView listening_state = (False, 0, [UpdatePitch False 0])"
  "pitchData listening_state = []"
  by (simp_all add: listening_state_def startListening_def updatePitch_def initial_state_def
      requestAnimationFrame_def loopView_def pitchLoops_def example_reading_def gatedInput_def
      Let_def)

text \<open>
  Listen with the box unticked, tick the box (which calibrates), and let the 299 further
  frames of the calibration pass, all with the spectrum \<open>fd\<close> and no pitch found.
\<close>

lemma late_cancel_state:
  assumes "fd \<noteq> []"
  defines "s \<equiv> run ([ClickListen True (example_reading [] [] None),
                       ChangeCancelNoise True (example_reading fd [] None)]
                      @ replicate 299 (AnimationFrame (example_reading fd [] None)))"
  shows "cancelNoise s" and "noiseFloorRef s = Math_max fd" and "noiseProfileRef s = Some fd"
    and "\<not> isCalibrating s" and "pitchData s = []"
    and "map snd (pending s) = [UpdatePitch False 0]"
proof -
  let ?q = "example_reading [] [] None" and ?n = "example_reading fd [] None"
  let ?s1 = "listening_state\<lparr>cancelNoise := True\<rparr>"
  let ?s3 = "animationFrames (replicate 299 ?n) (calibrateNoise ?n ?s1)"
  have s1: "step initial_state (ClickListen True ?q) = listening_state"
    by (simp add: listening_state_def initial_state_def)
  have s2: "step listening_state (ChangeCancelNoise True ?n) = calibrateNoise ?n ?s1"
    by (simp add: handleCancelNoiseChange_def listening_state_fields Let_def)
  have s: "s = ?s3"
    unfolding s_def run_def
    by (simp only: foldl_append foldl.simps s1 s2 foldl_step_AnimationFrame)
  have pend: "calibrationsPending ?s1 = []"
    using listening_state_fields(1) by (simp add: calibrationsPending_def)
  have time: "Suc (length (replicate 299 ?n)) = calibrationTime ?s1 * 60"
    by (simp add: listening_state_fields)
  note v = calibration_finished [OF pend time, of ?n]
  have "loopView ?s1 = (True, 0, [UpdatePitch False 0])"
    using listening_state_loop(1) by (simp add: loopView_def pitchLoops_def)
  then have lv: "loopView ?s3 = (True, 0, [UpdatePitch False 0])" by simp
  show "cancelNoise s" using lv by (simp add: s loopView_def)
  show "noiseFloorRef s = Math_max fd"
    using noiseFloorRef_view [OF v] by (simp add: s example_reading_def foldl_max_into_same)
  show "noiseProfileRef s = Some fd"
    using noiseProfileRef_view [OF v] by (simp add: s example_reading_def foldl_max_into_same)
  show "\<not> isCalibrating s" using isCalibrating_view [OF v] by (simp add: s)
  have "pitchData ?s3 = pitchData (calibrateNoise ?n ?s1)"
    by (rule pitchData_animationFrames_quiet) (simp add: example_reading_def)
  then show "pitchData s = []" by (simp add: s listening_state_loop)
  have "pitchLoops ?s3 = [UpdatePitch False 0]" using lv by (simp add: loopView_def)
  with calibrationsPending_view [OF v] show "map snd (pending s) = [UpdatePitch False 0]"
    unfolding s by (rule only_pitch_loops)
qed

lemma run_snoc: "run (evs @ [e]) = step (run evs) e"
  by (simp add: run_def)

lemma Math_max_single: "Math_max [x] = x"
  by simp

lemma pitchData_animationFrame_pitch_then_calibration:
  assumes "map snd (pending st) = [UpdatePitch c sm, UpdateCalibration k n]"
  shows "pitchData (animationFrame r st) = pitchData (updatePitch c sm r st)"
proof -
  from assms obtain h h' where "pending st = [(h, UpdatePitch c sm), (h', UpdateCalibration k n)]"
    by (auto simp add: map_eq_Cons_conv)
  then have "animationFrame r st =
      updateCalibration k n r (updatePitch c sm r (st\<lparr>pending := []\<rparr>))"
    by (simp add: animationFrame_def runCallback_def)
  then show ?thesis by (simp add: pitchData_updatePitch split: option.splits)
qed

lemma calibrating_late_state:
  defines "s \<equiv> run [ClickListen True (example_reading [] [] None),
                     ChangeCancelNoise True (example_reading [1, 2] [] None)]"
  shows "cancelNoise s" and "isCalibrating s" and "noiseProfileRef s = Some [1, 2]"
    and "noiseFloorRef s = 0" and "pitchData s = []"
    and "map snd (pending s) = [UpdatePitch False 0, UpdateCalibration 1 300]"
  unfolding s_def run_def
  by (simp_all add: initial_state_def startListening_def updatePitch_def
      requestAnimationFrame_def example_reading_def gatedInput_def handleCancelNoiseChange_def
      calibrateNoise_def updateCalibration_def set_array_def Let_def)

lemma slider_after_start_state:
  defines "s \<equiv> run [ClickListen True (example_reading [] [] None), ChangeSmoothness 1]"
  shows "smoothness s = 1" and "\<not> cancelNoise s" and "pitchData s = []"
    and "map snd (pending s) = [UpdatePitch False 0]"
  unfolding s_def run_def
  by (simp_all add: initial_state_def startListening_def updatePitch_def
      requestAnimationFrame_def example_reading_def gatedInput_def Let_def)

lemma map_snd_pending_animationFrame_only_pitch:
  assumes "map snd (pending st) = [UpdatePitch c sm]"
  shows "map snd (pending (animationFrame r st)) = [UpdatePitch c sm]"
  unfolding animationFrame_only_pitch [OF assms]
  by (simp add: updatePitch_def requestAnimationFrame_def Let_def split: option.splits)

lemma smooth_1_two: "spec_pitchHistory 1 [100, 200] = [150, 150]"
  by (simp add: spec_pitchHistory_def smooth_def smoothedData_def slice_def slice_last_def
      Let_def)

lemma radius_1_listening_state:
  defines "s \<equiv> run [ChangeSmoothness 1, ClickListen True (example_reading [] [] (Some 100))]"
  shows "smoothness s = 1" and "\<not> cancelNoise s" and "pitchData s = [100]"
    and "map snd (pending s) = [UpdatePitch False 1]"
  unfolding s_def run_def
  by (simp_all add: initial_state_def startListening_def updatePitch_def
      requestAnimationFrame_def example_reading_def gatedInput_def pitchDataUpdate_empty Let_def)

text \<open>
  C6, as claimed: the published history is the raw list of all accepted pitches, smoothed
  with the current radius and cut. It is not. With radius 1 and the pitches 100, 200, 300
  accepted from an empty history, the source publishes \<open>[150, 200, 225]\<close>, where the raw
  list smoothed is \<open>[150, 200, 250]\<close>: each update smooths what was published before
  (first for three calls of \<open>updatePitch\<close>, then for the run that sets the slider to 1,
  starts, and lets two frames pass).
  And when the slider is moved to 1 after the start, the loop goes on with radius 0: the
  pitches 100, 200 are published as \<open>[100, 200]\<close>, where radius 1 gives \<open>[150, 150]\<close>.
\<close>

theorem pitchData_not_smoothed_from_raw:
  "pitchData
     (updatePitch False 1 (example_reading [] [] (Some 300))
       (updatePitch False 1 (example_reading [] [] (Some 200))
         (updatePitch False 1 (example_reading [] [] (Some 100)) initial_state)))
   \<noteq> spec_pitchHistory 1 [100, 200, 300] \<and>
   pitchData
     (run [ChangeSmoothness 1, ClickListen True (example_reading [] [] (Some 100)),
           AnimationFrame (example_reading [] [] (Some 200)),
           AnimationFrame (example_reading [] [] (Some 300))])
   \<noteq> spec_pitchHistory 1 [100, 200, 300] \<and>
   smoothness
     (run [ClickListen True (example_reading [] [] None), ChangeSmoothness 1,
           AnimationFrame (example_reading [] [] (Some 100)),
           AnimationFrame (example_reading [] [] (Some 200))]) = 1 \<and>
   pitchData
     (run [ClickListen True (example_reading [] [] None), ChangeSmoothness 1,
           AnimationFrame (example_reading [] [] (Some 100)),
           AnimationFrame (example_reading [] [] (Some 200))])
   \<noteq> spec_pitchHistory 1 [100, 200]"
proof -
  have raw: "spec_pitchHistory 1 [100, 200, 300] = [150, 200, 250]"
    unfolding spec_pitchHistory_def smooth_1_raw by (simp add: slice_last_def)
  have a: "pitchData
     (updatePitch False 1 (example_reading [] [] (Some 300))
       (updatePitch False 1 (example_reading [] [] (Some 200))
         (updatePitch False 1 (example_reading [] [] (Some 100)) initial_state)))
   \<noteq> spec_pitchHistory 1 [100, 200, 300]"
  proof -
    have "pitchData initial_state = []" by (simp add: initial_state_def)
    then have "pitchData
       (updatePitch False 1 (example_reading [] [] (Some 300))
         (updatePitch False 1 (example_reading [] [] (Some 200))
           (updatePitch False 1 (example_reading [] [] (Some 100)) initial_state)))
       = [150, 200, 225]"
      by (simp only: pitchData_updatePitch_example pitchDataUpdate_1_first
          pitchDataUpdate_1_second pitchDataUpdate_1_third)
    then show ?thesis unfolding raw by simp
  qed
  let ?t = "run [ChangeSmoothness 1, ClickListen True (example_reading [] [] (Some 100))]"
  let ?t1 = "animationFrame (example_reading [] [] (Some 200)) ?t"
  let ?t2 = "animationFrame (example_reading [] [] (Some 300)) ?t1"
  note t = radius_1_listening_state
  have run': "run [ChangeSmoothness 1, ClickListen True (example_reading [] [] (Some 100)),
           AnimationFrame (example_reading [] [] (Some 200)),
           AnimationFrame (example_reading [] [] (Some 300))] = ?t2"
    by (simp add: run_def)
  have q1: "map snd (pending ?t1) = [UpdatePitch False 1]"
    using t(4) by (rule map_snd_pending_animationFrame_only_pitch)
  have c1: "pitchData ?t1 = [150, 150]"
    unfolding pitchData_animationFrame_only_pitch [OF t(4)] pitchData_updatePitch_example t(3)
    by (rule pitchDataUpdate_1_second)
  have c2: "pitchData ?t2 = [150, 200, 225]"
    unfolding pitchData_animationFrame_only_pitch [OF q1] pitchData_updatePitch_example c1
    by (rule pitchDataUpdate_1_third)
  have a': "pitchData ?t2 \<noteq> spec_pitchHistory 1 [100, 200, 300]"
    unfolding c2 raw by simp
  let ?s = "run [ClickListen True (example_reading [] [] None), ChangeSmoothness 1]"
  let ?s1 = "animationFrame (example_reading [] [] (Some 100)) ?s"
  let ?s2 = "animationFrame (example_reading [] [] (Some 200)) ?s1"
  note s = slider_after_start_state
  have run: "run [ClickListen True (example_reading [] [] None), ChangeSmoothness 1,
           AnimationFrame (example_reading [] [] (Some 100)),
           AnimationFrame (example_reading [] [] (Some 200))] = ?s2"
    by (simp add: run_def)
  have p1: "map snd (pending ?s1) = [UpdatePitch False 0]"
    using s(4) by (rule map_snd_pending_animationFrame_only_pitch)
  have d1: "pitchData ?s1 = [100]"
    unfolding pitchData_animationFrame_only_pitch [OF s(4)]
    using s(3) by (simp add: pitchData_updatePitch_example pitchDataUpdate_0)
  have d2: "pitchData ?s2 = [100, 200]"
    unfolding pitchData_animationFrame_only_pitch [OF p1]
    using d1 by (simp add: pitchData_updatePitch_example pitchDataUpdate_0)
  have "loopView ?s2 = loopView ?s" by simp
  then have sm: "smoothness ?s2 = 1" using s(1) by (simp add: loopView_def)
  have b: "pitchData ?s2 \<noteq> spec_pitchHistory 1 [100, 200]"
    unfolding d2 smooth_1_two by simp
  show ?thesis
    unfolding run run' using a a' sm b by blast
qed

text \<open>
  C6, amended, for a tick of a loop whose closure holds the settings of the session (the
  checkbox and the slider have not moved since the start; what a loop publishes after
  they have is left open). After each accepted estimate the published history is the
  previously published history, itself smoothed and cut, with the new pitch appended,
  smoothed with the current radius and cut to its last 100 entries. When this loop is
  the one pending callback, that is what the animation frame publishes. With radius 0
  the history published after the pitches \<open>ps\<close>, from an empty one, is the last 100 of
  \<open>ps\<close>.
\<close>

theorem pitchData_smoothed_from_published:
  "(\<forall>p. findPitch r (gatedInput (cancelNoise st) (noiseProfileRef st)
            (getFloatTimeDomainData r)) = Some p \<and>
        (\<not> cancelNoise st \<or> noiseFloorRef st < p) \<longrightarrow>
        pitchData (updatePitch (cancelNoise st) (smoothness st) r st) =
          slice_last 100 (smooth (smoothness st) (pitchData st @ [p]))) \<and>
   (map snd (pending st) = [UpdatePitch (cancelNoise st) (smoothness st)] \<longrightarrow>
      pitchData (animationFrame r st) =
        pitchData (updatePitch (cancelNoise st) (smoothness st) r st)) \<and>
   foldl (\<lambda>h p. pitchDataUpdate 0 p h) [] ps = spec_pitchHistory 0 ps"
proof (intro conjI allI impI)
  fix p
  assume "findPitch r (gatedInput (cancelNoise st) (noiseProfileRef st)
            (getFloatTimeDomainData r)) = Some p \<and>
        (\<not> cancelNoise st \<or> noiseFloorRef st < p)"
  then show "pitchData (updatePitch (cancelNoise st) (smoothness st) r st) =
          slice_last 100 (smooth (smoothness st) (pitchData st @ [p]))"
    by (auto simp add: pitchData_updatePitch pitchDataUpdate_smooth)
next
  assume "map snd (pending st) = [UpdatePitch (cancelNoise st) (smoothness st)]"
  then show "pitchData (animationFrame r st) =
        pitchData (updatePitch (cancelNoise st) (smoothness st) r st)"
    by (rule pitchData_animationFrame_only_pitch)
next
  show "foldl (\<lambda>h p. pitchDataUpdate 0 p h) [] ps = spec_pitchHistory 0 ps"
    using foldl_pitchDataUpdate_0 [of "[]" ps]
    by (simp add: spec_pitchHistory_def smooth_def slice_last_def)
qed

theorem pitchData_smoothed_from_published_witness:
  "pitchData
     (animationFrame (example_reading [] [] (Some 200))
        (run [ChangeSmoothness 1, ClickListen True (example_reading [] [] (Some 100))])) =
   [150, 150]"
proof -
  note s = radius_1_listening_state
  have pend: "map snd (pending (run [ChangeSmoothness 1,
      ClickListen True (example_reading [] [] (Some 100))])) =
      [UpdatePitch (cancelNoise (run [ChangeSmoothness 1,
          ClickListen True (example_reading [] [] (Some 100))]))
        (smoothness (run [ChangeSmoothness 1,
          ClickListen True (example_reading [] [] (Some 100))]))]"
    using s by simp
  have "smooth 1 [100, 200] = [150, 150]"
    using smooth_1_two by (simp add: spec_pitchHistory_def slice_last_def length_smooth)
  then show ?thesis
    using pend s
      pitchData_smoothed_from_published [of "example_reading [] [] (Some 200)"
        "run [ChangeSmoothness 1, ClickListen True (example_reading [] [] (Some 100))]"]
    by (simp add: example_reading_def gatedInput_def slice_last_def)
qed

text \<open>
  C3. The claim: a pitch enters the history and sets the current note only if noise
  cancellation is off or the pitch is above the noise floor; with noise cancellation on
  and floor \<open>F\<close> no \<open>p \<le> F\<close> appears. What the source does in this run: listen with the
  box unticked; tick the box, which calibrates over 300 frames whose spectrum is the one
  bin \<open>100\<close>. Noise cancellation is now on and the floor is \<open>100\<close>. In the next frame the
  estimator finds the pitch 50: it is appended and sets the current note, because the
  loop still holds the \<^verbatim>\<open>cancelNoise\<close> of the render in which it was started.
\<close>

theorem stale_cancelNoise_accepts_below_floor:
  "cancelNoise
     (run ([ClickListen True (example_reading [] [] None),
            ChangeCancelNoise True (example_reading [100] [] None)]
           @ replicate 299 (AnimationFrame (example_reading [100] [] None)))) \<and>
   noiseFloorRef
     (run ([ClickListen True (example_reading [] [] None),
            ChangeCancelNoise True (example_reading [100] [] None)]
           @ replicate 299 (AnimationFrame (example_reading [100] [] None)))) = 100 \<and>
   pitchData
     (run ([ClickListen True (example_reading [] [] None),
            ChangeCancelNoise True (example_reading [100] [] None)]
           @ replicate 299 (AnimationFrame (example_reading [100] [] None)))) = [] \<and>
   pitchData
     (run (([ClickListen True (example_reading [] [] None),
             ChangeCancelNoise True (example_reading [100] [] None)]
            @ replicate 299 (AnimationFrame (example_reading [100] [] None)))
           @ [AnimationFrame (example_reading [100] [] (Some 50))])) = [50] \<and>
   currentNote
     (run (([ClickListen True (example_reading [] [] None),
             ChangeCancelNoise True (example_reading [100] [] None)]
            @ replicate 299 (AnimationFrame (example_reading [100] [] None)))
           @ [AnimationFrame (example_reading [100] [] (Some 50))])) = getNote 50"
proof -
  have ne: "[100 :: real] \<noteq> []" by simp
  note s = late_cancel_state [OF ne]
  show ?thesis
    unfolding run_snoc step.simps pitchData_animationFrame_only_pitch [OF s(6)]
    using s(1,2,5)
    by (simp add: pitchData_updatePitch currentNote_updatePitch example_reading_def
        pitchDataUpdate_empty)
qed

text \<open>
  C9. The claim: with noise cancellation on and a profile in place, every sample handed
  to the estimator is the raw sample minus the profile's cell, raised to 0 when negative.
  What the source does in this run: listen with the box unticked; tick the box, which
  calibrates over 300 frames whose spectrum is \<open>[1, 2]\<close>. Noise cancellation is now on
  and the profile is \<open>[1, 2]\<close>. In the next frame the samples are \<open>[5, 1, 3]\<close> and the
  estimator answers the sum of what it receives: the history gets \<open>9\<close>, the sum of the
  raw frame, where the frame minus the profile is \<open>[4, 0, 2]\<close>.
\<close>

theorem stale_cancelNoise_skips_attenuation:
  "cancelNoise
     (run ([ClickListen True (example_reading [] [] None),
            ChangeCancelNoise True (example_reading [1, 2] [] None)]
           @ replicate 299 (AnimationFrame (example_reading [1, 2] [] None)))) \<and>
   noiseProfileRef
     (run ([ClickListen True (example_reading [] [] None),
            ChangeCancelNoise True (example_reading [1, 2] [] None)]
           @ replicate 299 (AnimationFrame (example_reading [1, 2] [] None)))) = Some [1, 2] \<and>
   pitchData
     (run (([ClickListen True (example_reading [] [] None),
             ChangeCancelNoise True (example_reading [1, 2] [] None)]
            @ replicate 299 (AnimationFrame (example_reading [1, 2] [] None)))
           @ [AnimationFrame (probe_reading [1, 2] [5, 1, 3])])) = [9] \<and>
   subtractProfile [1, 2] [5, 1, 3] = [4, 0, 2]"
proof -
  have ne: "[1, 2 :: real] \<noteq> []" by simp
  note s = late_cancel_state [OF ne]
  have sub: "subtractProfile [1, 2] [5, 1, 3] = [4, 0, 2]"
    by (simp add: subtractProfile_def numeral_3_eq_3)
  show ?thesis
    unfolding run_snoc step.simps pitchData_animationFrame_only_pitch [OF s(6)]
    using s(1,3,5) sub
    by (simp add: pitchData_updatePitch probe_reading_def gatedInput_def
        pitchDataUpdate_empty)
qed

text \<open>
  C10. The claim: while a calibration is in progress every pitch tick subtracts the
  profile built so far and compares the pitch with the floor of the last completed
  calibration. What the source does in this run: listen with the box unticked, then tick
  the box. The calibration is in progress, noise cancellation is on, the profile so far
  is \<open>[1, 2]\<close>. In the next frame the samples are \<open>[7, 1, 4]\<close> and the estimator answers
  the sum of what it receives: the history gets \<open>12\<close>, the sum of the raw frame, where
  the frame minus the profile is \<open>[6, 0, 3]\<close>.
\<close>

theorem stale_cancelNoise_during_calibration:
  "isCalibrating
     (run [ClickListen True (example_reading [] [] None),
           ChangeCancelNoise True (example_reading [1, 2] [] None)]) \<and>
   cancelNoise
     (run [ClickListen True (example_reading [] [] None),
           ChangeCancelNoise True (example_reading [1, 2] [] None)]) \<and>
   noiseProfileRef
     (run [ClickListen True (example_reading [] [] None),
           ChangeCancelNoise True (example_reading [1, 2] [] None)]) = Some [1, 2] \<and>
   pitchData
     (run ([ClickListen True (example_reading [] [] None),
            ChangeCancelNoise True (example_reading [1, 2] [] None)]
           @ [AnimationFrame (probe_reading [1, 2] [7, 1, 4])])) = [12] \<and>
   subtractProfile [1, 2] [7, 1, 4] = [6, 0, 3]"
proof -
  note s = calibrating_late_state
  have sub: "subtractProfile [1, 2] [7, 1, 4] = [6, 0, 3]"
    by (simp add: subtractProfile_def numeral_3_eq_3)
  show ?thesis
    unfolding run_snoc step.simps pitchData_animationFrame_pitch_then_calibration [OF s(6)]
    using s(1,2,3,5) sub
    by (simp add: pitchData_updatePitch probe_reading_def gatedInput_def
        pitchDataUpdate_empty)
qed

section \<open>Two calibrations at once\<close>

text \<open>
  The calibrate button is disabled while a calibration runs, the checkbox is not, and
  \<^verbatim>\<open>calibrateNoise\<close> keeps no handle of the loop it starts: ticking the box during a
  calibration starts a second loop next to the first. Both write the one profile, and
  each assigns the floor and clears \<^verbatim>\<open>isCalibrating\<close> at its own last frame.
\<close>

lemma calibrationView_updateCalibration_Some:
  assumes "calibrationView s = (Some p, fl, cal, ct, cbs)" and "0 < k"
  shows "calibrationView (updateCalibration k n r s) =
    (if k + 1 < n
     then (Some (max_into p (getFloatFrequencyData r)), fl, cal, ct,
           cbs @ [UpdateCalibration (k + 1) n])
     else (Some (max_into p (getFloatFrequencyData r)),
           Math_max (max_into p (getFloatFrequencyData r)), False, ct, cbs))"
proof -
  from assms(1) have "noiseProfileRef s = Some p" "noiseFloorRef s = fl" "isCalibrating s = cal"
    "calibrationTime s = ct" "calibrationsPending s = cbs"
    by (simp_all add: calibrationView_def)
  then show ?thesis using assms(2) by (simp add: calibrationView_updateCalibration Let_def)
qed

lemma two_calibrations_pending:
  assumes "calibrationsPending st = [a, b]"
  shows "\<exists>h h'. filter (\<lambda>hcb. isCalibration (snd hcb)) (pending st) = [(h, a), (h', b)]"
proof -
  have "map snd (filter (\<lambda>hcb. isCalibration (snd hcb)) (pending st)) = [a, b]"
    using assms by (simp add: calibrationsPending_def filter_map comp_def)
  then show ?thesis by (auto simp add: map_eq_Cons_conv)
qed

lemma calibrationView_animationFrame_two:
  assumes "calibrationView st =
      (Some p, fl, cal, ct, [UpdateCalibration k n, UpdateCalibration k' n'])"
  shows "calibrationView (animationFrame r st) =
    calibrationView
      (updateCalibration k' n' r (updateCalibration k n r (st\<lparr>pending := []\<rparr>)))"
proof -
  from assms have "calibrationsPending st = [UpdateCalibration k n, UpdateCalibration k' n']"
    by (simp add: calibrationView_def)
  from two_calibrations_pending [OF this] obtain h h'
    where h: "filter (\<lambda>hcb. isCalibration (snd hcb)) (pending st) =
      [(h, UpdateCalibration k n), (h', UpdateCalibration k' n')]"
    by blast
  have "calibrationView (animationFrame r st) =
      calibrationView (foldl (runCallback r) (st\<lparr>pending := []\<rparr>)
        (filter (\<lambda>hcb. isCalibration (snd hcb)) (pending st)))"
    unfolding animationFrame_def by (rule calibrationView_foldl_runCallback) simp
  then show ?thesis by (simp add: h runCallback_def)
qed

text \<open>Two calibration loops, neither at its last frame, over frames that equal the profile.\<close>

lemma two_calibrations_step:
  assumes "calibrationView st =
      (Some p, fl, cal, ct, [UpdateCalibration k n, UpdateCalibration k' n'])"
    and "0 < k" and "0 < k'" and "k + 1 < n" and "k' + 1 < n'"
    and "getFloatFrequencyData r = p"
  shows "calibrationView (animationFrame r st) =
      (Some p, fl, cal, ct, [UpdateCalibration (k + 1) n, UpdateCalibration (k' + 1) n'])"
proof -
  have same: "max_into p p = p" by (simp add: max_into_def map2_max_same)
  have 0: "calibrationView (st\<lparr>pending := []\<rparr>) = (Some p, fl, cal, ct, [])"
    using assms(1) by (simp add: calibrationView_def calibrationsPending_def)
  have 1: "calibrationView (updateCalibration k n r (st\<lparr>pending := []\<rparr>)) =
      (Some p, fl, cal, ct, [UpdateCalibration (k + 1) n])"
    using calibrationView_updateCalibration_Some [OF 0 assms(2), of n r] assms(4,6)
    by (simp add: same)
  have 2: "calibrationView
      (updateCalibration k' n' r (updateCalibration k n r (st\<lparr>pending := []\<rparr>))) =
      (Some p, fl, cal, ct, [UpdateCalibration (k + 1) n, UpdateCalibration (k' + 1) n'])"
    using calibrationView_updateCalibration_Some [OF 1 assms(3), of n' r] assms(5,6)
    by (simp add: same)
  show ?thesis
    unfolding calibrationView_animationFrame_two [OF assms(1)] by (rule 2)
qed

lemma two_calibrations_frames:
  assumes "calibrationView st =
      (Some p, fl, cal, ct, [UpdateCalibration k n, UpdateCalibration k' n'])"
    and "0 < k" and "0 < k'" and "k + j < n" and "k' + j < n'"
    and "getFloatFrequencyData r = p"
  shows "calibrationView (animationFrames (replicate j r) st) =
      (Some p, fl, cal, ct, [UpdateCalibration (k + j) n, UpdateCalibration (k' + j) n'])"
  using assms(4,5)
proof (induction j)
  case 0
  then show ?case using assms(1) by (simp add: animationFrames_def)
next
  case (Suc j)
  then have v: "calibrationView (animationFrames (replicate j r) st) =
      (Some p, fl, cal, ct, [UpdateCalibration (k + j) n, UpdateCalibration (k' + j) n'])"
    by simp
  have "replicate (Suc j) r = replicate j r @ [r]" by (simp add: replicate_append_same)
  then have "animationFrames (replicate (Suc j) r) st =
      animationFrame r (animationFrames (replicate j r) st)"
    by (simp only: animationFrames_snoc)
  then show ?case
    using two_calibrations_step [OF v _ _ _ _ assms(6)] assms(2,3) Suc.prems by simp
qed

text \<open>The frame in which the older loop ends and the newer one does not.\<close>

lemma two_calibrations_older_ends:
  assumes "calibrationView st =
      (Some p, fl, cal, ct, [UpdateCalibration k n, UpdateCalibration k' n'])"
    and "0 < k" and "0 < k'" and "\<not> k + 1 < n" and "k' + 1 < n'"
    and "getFloatFrequencyData r = p"
  shows "calibrationView (animationFrame r st) =
      (Some p, Math_max p, False, ct, [UpdateCalibration (k' + 1) n'])"
proof -
  have same: "max_into p p = p" by (simp add: max_into_def map2_max_same)
  have 0: "calibrationView (st\<lparr>pending := []\<rparr>) = (Some p, fl, cal, ct, [])"
    using assms(1) by (simp add: calibrationView_def calibrationsPending_def)
  have 1: "calibrationView (updateCalibration k n r (st\<lparr>pending := []\<rparr>)) =
      (Some p, Math_max p, False, ct, [])"
    using calibrationView_updateCalibration_Some [OF 0 assms(2), of n r] assms(4,6)
    by (simp add: same)
  have 2: "calibrationView
      (updateCalibration k' n' r (updateCalibration k n r (st\<lparr>pending := []\<rparr>))) =
      (Some p, Math_max p, False, ct, [UpdateCalibration (k' + 1) n'])"
    using calibrationView_updateCalibration_Some [OF 1 assms(3), of n' r] assms(5,6)
    by (simp add: same)
  show ?thesis
    unfolding calibrationView_animationFrame_two [OF assms(1)] by (rule 2)
qed

lemma isListening_animationFrame [simp]: "isListening (animationFrame r s) = isListening s"
  by (simp add: animationFrame_def isListening_foldl_runCallback)

lemma calibrationView_cancelNoise_update [simp]:
  "calibrationView (s\<lparr>cancelNoise := b\<rparr>) = calibrationView s"
  by (simp add: calibrationView_def calibrationsPending_def)

lemma calibrationView_calibrateNoise_view:
  assumes "calibrationView s = (pr, fl, cal, ct, cbs)" and "1 < ct * 60"
  shows "calibrationView (calibrateNoise r s) =
    (Some (getFloatFrequencyData r), fl, True, ct, cbs @ [UpdateCalibration 1 (ct * 60)])"
proof -
  from assms(1) have "noiseFloorRef s = fl" "calibrationTime s = ct" "calibrationsPending s = cbs"
    by (simp_all add: calibrationView_def)
  then show ?thesis using assms(2) by (simp add: calibrationView_calibrateNoise)
qed

text \<open>
  C4. The claim: the noise floor is set to the maximum of the profile exactly once, only
  after the calibration has consumed its 300 frames. What the source does in this run:
  listen; tick the box, which starts a calibration; one frame later untick and tick the
  box, which starts a second calibration next to the first; 298 frames follow, all with
  the spectrum \<open>[3]\<close>. The second calibration has now read 299 frames and its loop is
  still pending, yet the floor is already \<open>3\<close> and \<^verbatim>\<open>isCalibrating\<close> is off: the loop
  of the first calibration has ended. The next frame has the spectrum \<open>[9]\<close>, and the
  floor is set again, to \<open>9\<close>.
\<close>

theorem overlapping_calibrations_set_floor_early:
  "noiseFloorRef
     (run ([ClickListen True (example_reading [] [] None),
            ChangeCancelNoise True (example_reading [3] [] None),
            AnimationFrame (example_reading [3] [] None),
            ChangeCancelNoise False (example_reading [] [] None),
            ChangeCancelNoise True (example_reading [3] [] None)]
           @ replicate 298 (AnimationFrame (example_reading [3] [] None)))) = 3 \<and>
   \<not> isCalibrating
     (run ([ClickListen True (example_reading [] [] None),
            ChangeCancelNoise True (example_reading [3] [] None),
            AnimationFrame (example_reading [3] [] None),
            ChangeCancelNoise False (example_reading [] [] None),
            ChangeCancelNoise True (example_reading [3] [] None)]
           @ replicate 298 (AnimationFrame (example_reading [3] [] None)))) \<and>
   calibrationsPending
     (run ([ClickListen True (example_reading [] [] None),
            ChangeCancelNoise True (example_reading [3] [] None),
            AnimationFrame (example_reading [3] [] None),
            ChangeCancelNoise False (example_reading [] [] None),
            ChangeCancelNoise True (example_reading [3] [] None)]
           @ replicate 298 (AnimationFrame (example_reading [3] [] None)))) =
     [UpdateCalibration 299 300] \<and>
   noiseFloorRef
     (run (([ClickListen True (example_reading [] [] None),
             ChangeCancelNoise True (example_reading [3] [] None),
             AnimationFrame (example_reading [3] [] None),
             ChangeCancelNoise False (example_reading [] [] None),
             ChangeCancelNoise True (example_reading [3] [] None)]
            @ replicate 298 (AnimationFrame (example_reading [3] [] None)))
           @ [AnimationFrame (example_reading [9] [] None)])) = 9"
proof -
  let ?q = "example_reading [] [] None" and ?n = "example_reading [3] [] None"
  let ?s1 = "listening_state\<lparr>cancelNoise := True\<rparr>"
  let ?s2 = "calibrateNoise ?n ?s1"
  let ?s3 = "animationFrame ?n ?s2"
  let ?s4 = "?s3\<lparr>cancelNoise := False\<rparr>"
  let ?s5 = "calibrateNoise ?n (?s4\<lparr>cancelNoise := True\<rparr>)"
  let ?s6 = "animationFrames (replicate 297 ?n) ?s5"
  let ?s7 = "animationFrame ?n ?s6"
  have fd: "getFloatFrequencyData ?n = [3]" by (simp add: example_reading_def)
  have same: "max_into [3] [3] = [3 :: real]" by (simp add: max_into_def)
  have e1: "step initial_state (ClickListen True ?q) = listening_state"
    by (simp add: listening_state_def initial_state_def)
  have e2: "step listening_state (ChangeCancelNoise True ?n) = ?s2"
    by (simp add: handleCancelNoiseChange_def listening_state_fields Let_def)
  have e3: "step ?s2 (AnimationFrame ?n) = ?s3" by simp
  have e4: "step ?s3 (ChangeCancelNoise False ?q) = ?s4"
    by (simp add: handleCancelNoiseChange_def Let_def)
  have e5: "step ?s4 (ChangeCancelNoise True ?n) = ?s5"
    by (simp add: handleCancelNoiseChange_def listening_state_fields Let_def)
  have split: "replicate 298 (AnimationFrame ?n) =
      replicate 297 (AnimationFrame ?n) @ [AnimationFrame ?n]"
  proof -
    have "(298 :: nat) = Suc 297" by simp
    then show ?thesis by (simp only: replicate.simps replicate_append_same)
  qed
  have run: "run ([ClickListen True ?q, ChangeCancelNoise True ?n, AnimationFrame ?n,
        ChangeCancelNoise False ?q, ChangeCancelNoise True ?n]
      @ replicate 298 (AnimationFrame ?n)) = ?s7"
    unfolding run_def split
    by (simp only: foldl_append foldl.simps e1 e2 e3 e4 e5 foldl_step_AnimationFrame
        step.simps(5))
  have v1: "calibrationView ?s1 = (None, 0, False, 5, [])"
    using listening_state_fields
    by (simp add: calibrationView_def calibrationsPending_def listening_state_def
        startListening_def updatePitch_def initial_state_def requestAnimationFrame_def
        example_reading_def gatedInput_def Let_def)
  have v2: "calibrationView ?s2 = (Some [3], 0, True, 5, [UpdateCalibration 1 300])"
    using calibrationView_calibrateNoise_view [OF v1, of ?n] by (simp add: fd)
  have v3: "calibrationView ?s3 = (Some [3], 0, True, 5, [UpdateCalibration 2 300])"
    using calibrationView_animationFrame [OF v2, of ?n] by (simp add: fd same)
  have v4: "calibrationView (?s4\<lparr>cancelNoise := True\<rparr>) =
      (Some [3], 0, True, 5, [UpdateCalibration 2 300])"
    using v3 by simp
  have v5: "calibrationView ?s5 =
      (Some [3], 0, True, 5, [UpdateCalibration 2 300, UpdateCalibration 1 300])"
    using calibrationView_calibrateNoise_view [OF v4, of ?n] by (simp add: fd)
  have v6: "calibrationView ?s6 =
      (Some [3], 0, True, 5, [UpdateCalibration 299 300, UpdateCalibration 298 300])"
    using two_calibrations_frames [OF v5, of 297 ?n] by (simp add: fd)
  have v7: "calibrationView ?s7 = (Some [3], 3, False, 5, [UpdateCalibration 299 300])"
    using two_calibrations_older_ends [OF v6, of ?n] by (simp add: fd)
  have v8: "calibrationView (animationFrame (example_reading [9] [] None) ?s7) =
      (Some [9], 9, False, 5, [])"
    using calibrationView_animationFrame [OF v7, of "example_reading [9] [] None"]
    by (simp add: example_reading_def max_into_def)
  show ?thesis
    unfolding run_snoc run step.simps
    using v7 v8 by (simp add: calibrationView_def)
qed

section \<open>Stopping and starting\<close>

text \<open>
  C8, as claimed: a stop followed by a start yields an empty history and nothing of the
  prior session's calibration, neither profile nor floor. It does not: listen; tick the
  box, which calibrates over 300 frames whose spectrum is the one bin \<open>7\<close>; untick it;
  stop; start, the first tick finding the pitch 330. The floor is still \<open>7\<close> and the
  profile still \<open>[7]\<close>, where a fresh session has the floor \<open>0\<close> and no profile, and
  the history is \<open>[330]\<close>: \<^verbatim>\<open>startListening\<close> runs the first tick itself.
\<close>

theorem stop_start_keeps_floor_and_profile:
  "noiseFloorRef
     (run ([ClickListen True (example_reading [] [] None),
            ChangeCancelNoise True (example_reading [7] [] None)]
           @ replicate 299 (AnimationFrame (example_reading [7] [] None))
           @ [ChangeCancelNoise False (example_reading [] [] None),
              ClickListen True (example_reading [] [] None),
              ClickListen True (example_reading [] [] (Some 330))])) = 7 \<and>
   noiseProfileRef
     (run ([ClickListen True (example_reading [] [] None),
            ChangeCancelNoise True (example_reading [7] [] None)]
           @ replicate 299 (AnimationFrame (example_reading [7] [] None))
           @ [ChangeCancelNoise False (example_reading [] [] None),
              ClickListen True (example_reading [] [] None),
              ClickListen True (example_reading [] [] (Some 330))])) = Some [7] \<and>
   noiseFloorRef initial_state = 0 \<and> noiseProfileRef initial_state = None \<and>
   pitchData
     (run ([ClickListen True (example_reading [] [] None),
            ChangeCancelNoise True (example_reading [7] [] None)]
           @ replicate 299 (AnimationFrame (example_reading [7] [] None))
           @ [ChangeCancelNoise False (example_reading [] [] None),
              ClickListen True (example_reading [] [] None),
              ClickListen True (example_reading [] [] (Some 330))])) = [330]"
proof -
  let ?q = "example_reading [] [] None" and ?n = "example_reading [7] [] None"
  let ?r = "example_reading [] [] (Some 330)"
  let ?s1 = "listening_state\<lparr>cancelNoise := True\<rparr>"
  let ?s3 = "animationFrames (replicate 299 ?n) (calibrateNoise ?n ?s1)"
  let ?s4 = "?s3\<lparr>cancelNoise := False\<rparr>"
  have s1: "step initial_state (ClickListen True ?q) = listening_state"
    by (simp add: listening_state_def initial_state_def)
  have s2: "step listening_state (ChangeCancelNoise True ?n) = calibrateNoise ?n ?s1"
    by (simp add: handleCancelNoiseChange_def listening_state_fields Let_def)
  have pend: "calibrationsPending ?s1 = []"
    using listening_state_fields(1) by (simp add: calibrationsPending_def)
  have time: "Suc (length (replicate 299 ?n)) = calibrationTime ?s1 * 60"
    by (simp add: listening_state_fields)
  note v = calibration_finished [OF pend time, of ?n]
  have prof: "noiseProfileRef ?s3 = Some [7]"
    using noiseProfileRef_view [OF v] by (simp add: example_reading_def foldl_max_into_same)
  have floor: "noiseFloorRef ?s3 = 7"
    using noiseFloorRef_view [OF v] by (simp add: example_reading_def foldl_max_into_same)
  have cal: "\<not> isCalibrating ?s3"
    using isCalibrating_view [OF v] by simp
  have lis: "isListening ?s3" by (simp add: listening_state_fields)
  have s4: "step ?s3 (ChangeCancelNoise False ?q) = ?s4"
    by (simp add: handleCancelNoiseChange_def Let_def)
  have s5: "step ?s4 (ClickListen True ?q) = stopListening ?s4"
    using cal lis by simp
  have s6: "step (stopListening ?s4) (ClickListen True ?r) =
      startListening True ?r (stopListening ?s4)"
    using cal by (simp add: stopListening_fields)
  have run: "run ([ClickListen True ?q, ChangeCancelNoise True ?n]
           @ replicate 299 (AnimationFrame ?n)
           @ [ChangeCancelNoise False ?q, ClickListen True ?q, ClickListen True ?r]) =
      startListening True ?r (stopListening ?s4)"
    unfolding run_def by (simp only: foldl_append foldl.simps s1 s2 foldl_step_AnimationFrame s4 s5 s6)
  have off: "\<not> cancelNoise (stopListening ?s4)" by (simp add: stopListening_fields)
  have hist: "pitchData (startListening True ?r (stopListening ?s4)) = [330]"
    using off
    by (simp add: startListening_def pitchData_updatePitch example_reading_def
        stopListening_fields pitchDataUpdate_empty Let_def)
  show ?thesis
    unfolding run
    using startListening_cancelNoise_off(1,2) [OF off, of ?r] prof floor hist
    by (simp add: stopListening_fields initial_state_def)
qed

text \<open>
  C8, amended. \<open>stopListening\<close> empties the history and the current note, and it leaves
  the noise floor and the noise profile as they are. Right after \<open>startListening\<close> on the
  stopped state the history is empty or holds the one pitch of the first tick, which
  \<open>startListening\<close> runs itself; the noise floor is still the one from before the stop
  (when noise cancellation is off, or the calibration that starts takes more than one
  frame, as it does with the calibration time of 5 seconds), and when noise cancellation
  is off the noise profile is, too.
\<close>

theorem stop_start_keeps_calibration:
  "pitchData (stopListening st) = [] \<and> currentNote (stopListening st) = [] \<and>
   noiseFloorRef (stopListening st) = noiseFloorRef st \<and>
   noiseProfileRef (stopListening st) = noiseProfileRef st \<and>
   (let st' = startListening True r (stopListening st)
    in (pitchData st' = [] \<and> currentNote st' = [] \<or>
        (\<exists>p. pitchData st' = [p] \<and> currentNote st' = getNote p)) \<and>
       (\<not> cancelNoise st \<or> 1 < calibrationTime st * 60 \<longrightarrow>
          noiseFloorRef st' = noiseFloorRef st) \<and>
       (\<not> cancelNoise st \<longrightarrow> noiseProfileRef st' = noiseProfileRef st))"
proof -
  let ?s = "stopListening st"
  let ?c = "if cancelNoise ?s then calibrateNoise r ?s else ?s"
  have start: "startListening True r ?s =
      (updatePitch (cancelNoise ?s) (smoothness ?s) r ?c)\<lparr>isListening := True\<rparr>"
    by (simp add: startListening_def Let_def)
  have c: "pitchData ?c = []" "currentNote ?c = []"
    by (simp_all add: stopListening_fields)
  have hist: "pitchData (startListening True r ?s) = [] \<and>
        currentNote (startListening True r ?s) = [] \<or>
      (\<exists>p. pitchData (startListening True r ?s) = [p] \<and>
        currentNote (startListening True r ?s) = getNote p)"
    unfolding start using updatePitch_from_empty [OF c] by simp
  have floor: "noiseFloorRef (startListening True r ?s) = noiseFloorRef st"
    if "\<not> cancelNoise st \<or> 1 < calibrationTime st * 60"
    unfolding start using that
    by (auto simp add: updatePitch_view_fields stopListening_fields noiseFloorRef_calibrateNoise)
  have prof: "noiseProfileRef (startListening True r ?s) = noiseProfileRef st"
    if "\<not> cancelNoise st"
    unfolding start using that
    by (simp add: updatePitch_view_fields stopListening_fields)
  show ?thesis
    using hist floor prof by (simp add: stopListening_fields Let_def)
qed

theorem stop_start_keeps_calibration_witness:
  "pitchData (stopListening (listening_state\<lparr>pitchData := [440], noiseFloorRef := 7,
      noiseProfileRef := Some [7]\<rparr>)) = [] \<and>
   noiseFloorRef (startListening True (example_reading [] [] (Some 330))
     (stopListening (listening_state\<lparr>pitchData := [440], noiseFloorRef := 7,
        noiseProfileRef := Some [7]\<rparr>))) = 7 \<and>
   noiseProfileRef (startListening True (example_reading [] [] (Some 330))
     (stopListening (listening_state\<lparr>pitchData := [440], noiseFloorRef := 7,
        noiseProfileRef := Some [7]\<rparr>))) = Some [7] \<and>
   noiseFloorRef (startListening True (example_reading [3] [] None)
     (stopListening (listening_state\<lparr>cancelNoise := True, noiseFloorRef := 7,
        noiseProfileRef := Some [7]\<rparr>))) = 7"
proof -
  have off: "\<not> cancelNoise (listening_state\<lparr>pitchData := [440], noiseFloorRef := 7,
      noiseProfileRef := Some [7]\<rparr>)"
    by (simp add: listening_state_fields)
  have long: "1 < calibrationTime (listening_state\<lparr>cancelNoise := True, noiseFloorRef := 7,
      noiseProfileRef := Some [7]\<rparr>) * 60"
    by (simp add: listening_state_fields)
  show ?thesis
    using off long
      stop_start_keeps_calibration [of "listening_state\<lparr>pitchData := [440],
        noiseFloorRef := 7, noiseProfileRef := Some [7]\<rparr>" "example_reading [] [] (Some 330)"]
      stop_start_keeps_calibration [of "listening_state\<lparr>cancelNoise := True,
        noiseFloorRef := 7, noiseProfileRef := Some [7]\<rparr>" "example_reading [3] [] None"]
    by (simp add: Let_def)
qed

end
